theory Spec2Isabelle
  imports Complex_Main
begin

section \<open>JavaScript strings and object lookup\<close>

text \<open>
  A JavaScript string is modelled as a \<^typ>\<open>string\<close> whose characters are the code
  units below 256 (the Latin-1 range); a string is truthy when it is not empty.
\<close>

definition isWhiteSpace :: "char \<Rightarrow> bool" where
  \<comment> \<open>the WhiteSpace and LineTerminator code points below 256 that \<open>trim()\<close> strips:
      TAB, LF, VT, FF, CR, SPACE and NBSP\<close>
  "isWhiteSpace c = (c \<in> set [CHR 0x09, CHR 0x0A, CHR 0x0B, CHR 0x0C, CHR 0x0D, CHR 0x20, CHR 0xA0])"

definition trim :: "string \<Rightarrow> string" where
  "trim s = rev (dropWhile isWhiteSpace (rev (dropWhile isWhiteSpace s)))"

definition lowerChar :: "char \<Rightarrow> char" where
  \<comment> \<open>A-Z, and the upper-case letters of Latin-1 (0xC0-0xDE without the multiplication sign)\<close>
  "lowerChar c =
     (let n = (of_char c :: nat)
      in if (65 \<le> n \<and> n \<le> 90) \<or> (192 \<le> n \<and> n \<le> 222 \<and> n \<noteq> 215) then char_of (n + 32) else c)"

definition toLowerCase :: "string \<Rightarrow> string" where
  "toLowerCase s = map lowerChar s"

definition startsWith :: "string \<Rightarrow> string \<Rightarrow> bool" where
  "startsWith s p = (take (length p) s = p)"

fun includesStr :: "string \<Rightarrow> string \<Rightarrow> bool" where
  "includesStr [] sub = (sub = [])"
| "includesStr (c # cs) sub = (startsWith (c # cs) sub \<or> includesStr cs sub)"

definition splitFirst :: "char \<Rightarrow> string \<Rightarrow> string" where
  \<comment> \<open>\<open>s.split(sep)[0]\<close>: the part of \<open>s\<close> before the first separator\<close>
  "splitFirst sep s = takeWhile (\<lambda>c. c \<noteq> sep) s"

fun digits :: "nat \<Rightarrow> string" where
  \<comment> \<open>the decimal digits of a number, as number-to-string conversion writes them\<close>
  "digits n = (if n < 10 then [char_of (48 + n)] else digits (n div 10) @ [char_of (48 + n mod 10)])"

declare digits.simps [simp del]

text \<open>
  A value read from an object literal with \<open>obj[key]\<close> is either one of the literal's own
  string values, or a member inherited from \<open>Object.prototype\<close> (a function or object,
  always truthy), or undefined.
\<close>

datatype jsval = JString string | Inherited string

definition objectPrototypeKeys :: "string list" where
  "objectPrototypeKeys =
     [''constructor'', ''__defineGetter__'', ''__defineSetter__'', ''hasOwnProperty'',
      ''__lookupGetter__'', ''__lookupSetter__'', ''isPrototypeOf'', ''propertyIsEnumerable'',
      ''toString'', ''valueOf'', ''__proto__'', ''toLocaleString'']"

definition objectGet :: "(string \<times> string) list \<Rightarrow> string \<Rightarrow> jsval option" where
  "objectGet obj k =
     (case map_of obj k of
        Some v \<Rightarrow> Some (JString v)
      | None \<Rightarrow> if k \<in> set objectPrototypeKeys then Some (Inherited k) else None)"

fun truthy :: "jsval option \<Rightarrow> bool" where
  "truthy None = False"
| "truthy (Some (JString v)) = (v \<noteq> [])"
| "truthy (Some (Inherited k)) = True"

section \<open>Language tables\<close>

definition LANGUAGE_LOCALES :: "(string \<times> string) list" where
  "LANGUAGE_LOCALES =
     [(''English'', ''en-US''), (''French'', ''fr-FR''), (''Spanish'', ''es-ES''),
      (''German'', ''de-DE''), (''Italian'', ''it-IT''), (''Chinese'', ''zh-CN''),
      (''Japanese'', ''ja-JP''), (''Arabic'', ''ar-SA''), (''Russian'', ''ru-RU''),
      (''Portuguese'', ''pt-PT''), (''Dutch'', ''nl-NL'')]"

definition localeMap :: "(string \<times> string) list" where
  \<comment> \<open>the object \<open>map\<close> local to \<open>mapLanguageCodeToLocale\<close>\<close>
  "localeMap =
     [(''en'', ''en-US''), (''fr'', ''fr-FR''), (''es'', ''es-ES''), (''de'', ''de-DE''),
      (''it'', ''it-IT''), (''zh'', ''zh-CN''), (''ja'', ''ja-JP''), (''ar'', ''ar-SA''),
      (''ru'', ''ru-RU''), (''pt'', ''pt-PT''), (''nl'', ''nl-NL'')]"

definition baseCode :: "string \<Rightarrow> string" where
  \<comment> \<open>\<open>shortCode.split('-')[0].toLowerCase()\<close>\<close>
  "baseCode shortCode = toLowerCase (splitFirst (CHR ''-'') shortCode)"

definition mapLanguageCodeToLocale :: "string option \<Rightarrow> jsval option" where
  "mapLanguageCodeToLocale shortCode =
     (case shortCode of
        None \<Rightarrow> None
      | Some c \<Rightarrow> if c = [] then None else objectGet localeMap (baseCode c))"

section \<open>Messages, environment and application state\<close>

text \<open>
  The language code of an input transcription is read through \<open>(trans as any)\<close>: it is a
  string, or some other JSON value of which only the truthiness matters.
\<close>

datatype langCode = CodeStr string | CodeOther bool

record transcription =
  trText :: "string option"
  languageCode :: "langCode option"

text \<open>
  The fields of \<open>message.serverContent\<close> that the callbacks read; a message without
  \<open>serverContent\<close> has none of them. \<open>inlineAudio\<close> is
  \<open>modelTurn?.parts?.[0]?.inlineData?.data\<close>.
\<close>

record message =
  inputTranscription :: "transcription option"
  outputTranscription :: "transcription option"
  turnComplete :: bool
  interrupted :: bool
  inlineAudio :: "string option"

text \<open>
  An \<open>AudioBuffer\<close> has a length in sample frames and a sample rate; its duration is the
  quotient of the two.
\<close>

record audio_buffer =
  bufLength :: nat
  bufSampleRate :: nat

definition duration :: "audio_buffer \<Rightarrow> real" where
  "duration b = real (bufLength b) / real (bufSampleRate b)"

record source_node =
  nodeId :: nat
  startTime :: real
  buffer :: audio_buffer

datatype exn = TypeError string | AudioError string

datatype source = User | Model

record transcript_item =
  itemId :: string
  itemSource :: source
  itemText :: string
  itemLanguage :: "langCode option"
  isFinal :: bool
  timestamp :: nat

record utterance =
  uttText :: string
  uttRate :: real
  uttLang :: jsval

text \<open>
  A transcript item is built by the updater function passed to \<open>setTranscripts\<close>, and
  React runs that function when it processes the update: at once, or after the handler
  has returned, when the handler has already cleared \<open>currentInputLanguageRef\<close> and a
  later message may have set it again. What the updater reads when it runs is therefore
  not fixed by the handler: \<open>Date.now()\<close> for the id, \<open>new Date()\<close> for the timestamp and
  \<open>currentInputLanguageRef.current\<close> for the language. These readings belong to the
  environment.
\<close>

record updater_reads =
  readNow :: nat
  readDate :: nat
  readLanguage :: "langCode option"

text \<open>
  What a callback reads from outside the component: the output context's clock, what the
  updaters of the user item and of the model item read when React runs them, whether
  \<open>window\<close> has \<open>speechSynthesis\<close>, and the decoder
  \<open>decodeAudioData(decode(data), ctx, 24000, 1)\<close> of \<open>utils/audioUtils\<close>, which either
  throws or yields a buffer.
\<close>

record env =
  currentTime :: real
  userUpdater :: updater_reads
  modelUpdater :: updater_reads
  speechSynthesis :: bool
  decodeAudio :: "string \<Rightarrow> exn + audio_buffer"

text \<open>
  The component's state and refs, followed by the effects on the outside world, kept as
  logs: every \<open>source.start(t)\<close>, every \<open>src.stop()\<close>, every
  \<open>speechSynthesis.speak\<close>, the number of \<open>speechSynthesis.cancel()\<close> calls and the
  console entries. \<open>sources\<close> is the set \<open>sourcesRef\<close> in insertion order; \<open>nextNodeId\<close>
  gives each created source node its identity. \<open>transcripts\<close> is the transcript list as
  the updates queued so far produce it.
\<close>

record app_state =
  isConnected :: bool
  error :: "string option"
  transcripts :: "transcript_item list"
  streamingUserText :: string
  streamingModelText :: string
  useBrowserTTS :: bool
  targetLanguage :: string
  hasAudioContext :: bool
  hasOutputAnalyser :: bool
  nextStartTime :: real
  sources :: "source_node list"
  currentInputTrans :: string
  currentOutputTrans :: string
  currentInputLanguage :: "langCode option"
  lastClientLanguage :: string
  nextNodeId :: nat
  started :: "source_node list"
  stopped :: "nat list"
  spoken :: "utterance list"
  cancels :: nat
  console :: "string list"

definition initialState :: app_state where
  "initialState =
     \<lparr> isConnected = False, error = None, transcripts = [],
       streamingUserText = [], streamingModelText = [],
       useBrowserTTS = False, targetLanguage = ''Auto'',
       hasAudioContext = False, hasOutputAnalyser = False,
       nextStartTime = 0, sources = [],
       currentInputTrans = [], currentOutputTrans = [],
       currentInputLanguage = None, lastClientLanguage = ''en-US'',
       nextNodeId = 0, started = [], stopped = [], spoken = [], cancels = 0, console = [] \<rparr>"

text \<open>
  A callback either returns, or throws with the mutations made so far in place.
\<close>

datatype outcome = Normal app_state | Throw exn app_state

fun stateOf :: "outcome \<Rightarrow> app_state" where
  "stateOf (Normal s) = s"
| "stateOf (Throw e s) = s"

fun catchLog :: "string \<Rightarrow> outcome \<Rightarrow> app_state" where
  \<comment> \<open>\<open>try { ... } catch (e) { console.error(label, e) }\<close>\<close>
  "catchLog label (Normal s) = s"
| "catchLog label (Throw e s) = s\<lparr>console := console s @ [label]\<rparr>"

section \<open>Fallback speech: \<open>speakText\<close>\<close>

definition ifTruthy :: "jsval option \<Rightarrow> jsval option" where
  "ifTruthy v = (if truthy v then v else None)"

definition clientLang :: "app_state \<Rightarrow> jsval" where
  \<comment> \<open>the \<open>else\<close> branch of "Determine language": the foreign (client) language\<close>
  "clientLang s =
     (let currentTarget = targetLanguage s
      in case (if currentTarget \<noteq> ''Auto'' then ifTruthy (objectGet LANGUAGE_LOCALES currentTarget)
               else None) of
           Some locale \<Rightarrow> locale
         | None \<Rightarrow>
             (case ifTruthy (mapLanguageCodeToLocale (Some (lastClientLanguage s))) of
                Some detectedLocale \<Rightarrow> detectedLocale
              | None \<Rightarrow> JString ''en-US''))"

definition speakText :: "env \<Rightarrow> string \<Rightarrow> bool \<Rightarrow> app_state \<Rightarrow> app_state" where
  "speakText e txt isFrenchOutput s =
     (if \<not> speechSynthesis e then s
      else s\<lparr>spoken := spoken s @
             [\<lparr>uttText = txt, uttRate = 1,
               uttLang = (if isFrenchOutput then JString ''fr-FR'' else clientLang s)\<rparr>]\<rparr>)"

section \<open>Transcript accumulation: \<open>handleTranscription\<close>\<close>

definition isFrench :: "string \<Rightarrow> bool" where
  \<comment> \<open>\<open>x.toLowerCase().startsWith('fr')\<close>\<close>
  "isFrench code = startsWith (toLowerCase code) ''fr''"

definition appendUserText :: "string option \<Rightarrow> app_state \<Rightarrow> app_state" where
  "appendUserText txt s =
     (case txt of
        None \<Rightarrow> s
      | Some t \<Rightarrow>
          if t = [] then s
          else s\<lparr>currentInputTrans := currentInputTrans s @ t,
                 streamingUserText := currentInputTrans s @ t\<rparr>)"

definition appendModelText :: "string option \<Rightarrow> app_state \<Rightarrow> app_state" where
  "appendModelText txt s =
     (case txt of
        None \<Rightarrow> s
      | Some t \<Rightarrow>
          if t = [] then s
          else s\<lparr>currentOutputTrans := currentOutputTrans s @ t,
                 streamingModelText := currentOutputTrans s @ t\<rparr>)"

definition handleInput :: "message \<Rightarrow> app_state \<Rightarrow> outcome" where
  \<comment> \<open>"Input Transcription (User)"\<close>
  "handleInput m s =
     (case inputTranscription m of
        None \<Rightarrow> Normal s
      | Some tr \<Rightarrow>
          (let s1 = appendUserText (trText tr) s
           in case languageCode tr of
                None \<Rightarrow> Normal s1
              | Some (CodeOther b) \<Rightarrow>
                  if b
                  then Throw (TypeError ''code.toLowerCase is not a function'')
                         (s1\<lparr>currentInputLanguage := Some (CodeOther b)\<rparr>)
                  else Normal s1
              | Some (CodeStr code) \<Rightarrow>
                  if code = [] then Normal s1
                  else (let s2 = s1\<lparr>currentInputLanguage := Some (CodeStr code)\<rparr>
                        in Normal (if \<not> isFrench code then s2\<lparr>lastClientLanguage := code\<rparr>
                                   else s2))))"

definition handleOutput :: "message \<Rightarrow> app_state \<Rightarrow> app_state" where
  \<comment> \<open>"Output Transcription (Model)"\<close>
  "handleOutput m s =
     (case outputTranscription m of
        None \<Rightarrow> s
      | Some tr \<Rightarrow> appendModelText (trText tr) s)"

fun orEmpty :: "langCode option \<Rightarrow> langCode" where
  \<comment> \<open>\<open>currentInputLanguageRef.current || ''\<close>\<close>
  "orEmpty None = CodeStr []"
| "orEmpty (Some (CodeStr c)) = CodeStr c"
| "orEmpty (Some (CodeOther b)) = (if b then CodeOther b else CodeStr [])"

definition finalizeUser :: "env \<Rightarrow> string \<Rightarrow> app_state \<Rightarrow> app_state" where
  "finalizeUser e userInput s =
     (if userInput = [] then s
      else s\<lparr>transcripts := transcripts s @
               [\<lparr>itemId = digits (readNow (userUpdater e)) @ ''-user'', itemSource = User,
                 itemText = userInput, itemLanguage = readLanguage (userUpdater e),
                 isFinal = True, timestamp = readDate (userUpdater e)\<rparr>],
             currentInputTrans := [],
             currentInputLanguage := None,
             streamingUserText := []\<rparr>)"

definition finalizeModel :: "env \<Rightarrow> string \<Rightarrow> bool \<Rightarrow> app_state \<Rightarrow> app_state" where
  "finalizeModel e modelOutput isFrenchOutput s =
     (if modelOutput = [] then s
      else (let s1 = s\<lparr>transcripts := transcripts s @
                        [\<lparr>itemId = digits (readNow (modelUpdater e)) @ ''-model'', itemSource = Model,
                          itemText = modelOutput, itemLanguage = None,
                          isFinal = True, timestamp = readDate (modelUpdater e)\<rparr>]\<rparr>;
                s2 = (if useBrowserTTS s1 then speakText e modelOutput isFrenchOutput s1 else s1)
            in s2\<lparr>currentOutputTrans := [], streamingModelText := []\<rparr>))"

definition finalizeTurn :: "env \<Rightarrow> app_state \<Rightarrow> outcome" where
  \<comment> \<open>"Turn Complete (Finalize)"\<close>
  "finalizeTurn e s =
     (let userInput = trim (currentInputTrans s);
          modelOutput = trim (currentOutputTrans s)
      in case orEmpty (currentInputLanguage s) of
           CodeOther b \<Rightarrow> Throw (TypeError ''detectedInputLang.toLowerCase is not a function'') s
         | CodeStr detectedInputLang \<Rightarrow>
             (let isFrenchInput = isFrench detectedInputLang;
                  isFrenchOutput = \<not> isFrenchInput
              in Normal (finalizeModel e modelOutput isFrenchOutput (finalizeUser e userInput s))))"

definition handleTranscription :: "env \<Rightarrow> message \<Rightarrow> app_state \<Rightarrow> outcome" where
  "handleTranscription e m s =
     (case handleInput m s of
        Throw x s1 \<Rightarrow> Throw x s1
      | Normal s1 \<Rightarrow>
          (let s2 = handleOutput m s1
           in if turnComplete m then finalizeTurn e s2 else Normal s2))"

section \<open>Playback scheduling and the channel callbacks\<close>

definition startSource :: "audio_buffer \<Rightarrow> app_state \<Rightarrow> app_state" where
  \<comment> \<open>\<open>source.start(nextStartTime); nextStartTime += audioBuffer.duration; sources.add(source)\<close>\<close>
  "startSource audioBuffer s =
     (let src = \<lparr>nodeId = nextNodeId s, startTime = nextStartTime s, buffer = audioBuffer\<rparr>
      in s\<lparr>nextNodeId := Suc (nextNodeId s),
            started := started s @ [src],
            nextStartTime := nextStartTime s + duration audioBuffer,
            sources := sources s @ [src]\<rparr>)"

definition playAudio :: "env \<Rightarrow> message \<Rightarrow> app_state \<Rightarrow> app_state" where
  \<comment> \<open>"Handle Audio": only when browser TTS is disabled\<close>
  "playAudio e m s =
     (case inlineAudio m of
        None \<Rightarrow> s
      | Some base64Audio \<Rightarrow>
          if \<not> useBrowserTTS s \<and> base64Audio \<noteq> [] \<and> hasAudioContext s \<and> hasOutputAnalyser s
          then (let s1 = s\<lparr>nextStartTime := max (nextStartTime s) (currentTime e)\<rparr>
                in catchLog ''Audio decoding error:''
                     (case decodeAudio e base64Audio of
                        Inl err \<Rightarrow> Throw err s1
                      | Inr audioBuffer \<Rightarrow> Normal (startSource audioBuffer s1)))
          else s)"

definition flushAndStop :: "env \<Rightarrow> app_state \<Rightarrow> outcome" where
  \<comment> \<open>the body of \<open>if (message.serverContent?.interrupted)\<close>\<close>
  "flushAndStop e s =
     (let s1 = s\<lparr>stopped := stopped s @ map nodeId (sources s),
                  sources := [],
                  nextStartTime := 0\<rparr>
      in if useBrowserTTS s1
         then (if speechSynthesis e then Normal (s1\<lparr>cancels := Suc (cancels s1)\<rparr>)
               else Throw (TypeError ''window.speechSynthesis is undefined'') s1)
         else Normal s1)"

text \<open>
  \<open>onmessage\<close> is modelled as one uninterrupted step: the \<open>await\<close> on the decoder is not a
  point where another callback is interleaved.
\<close>

definition onmessage :: "env \<Rightarrow> message \<Rightarrow> app_state \<Rightarrow> outcome" where
  "onmessage e m s =
     (let s1 = catchLog ''Error processing transcription message:'' (handleTranscription e m s);
          s2 = playAudio e m s1
      in if interrupted m then flushAndStop e s2 else Normal s2)"

definition sourceEnded :: "nat \<Rightarrow> app_state \<Rightarrow> app_state" where
  \<comment> \<open>the \<open>ended\<close> listener of a source node: \<open>sourcesRef.current.delete(source)\<close>\<close>
  "sourceEnded n s = s\<lparr>sources := filter (\<lambda>src. nodeId src \<noteq> n) (sources s)\<rparr>"

datatype channelError = ErrorObject string | NotAnError

definition configurationMessage :: string where
  "configurationMessage =
     ''Configuration invalide (v'' @ [CHR 0xE9] @ ''rifiez les param'' @ [CHR 0xE8] @ ''tres audio).''"

definition connectionMessage :: string where
  "connectionMessage = ''Erreur de connexion avec l'' @ [CHR 0x27] @ ''IA.''"

definition onerror :: "channelError \<Rightarrow> app_state \<Rightarrow> app_state" where
  "onerror err s =
     (let s1 = s\<lparr>console := console s @ [''Session Error'']\<rparr>
      in case err of
           NotAnError \<Rightarrow> s1
         | ErrorObject msg \<Rightarrow>
             if includesStr msg ''Invalid argument'' then s1\<lparr>error := Some configurationMessage\<rparr>
             else if includesStr msg ''Internal error''
             then s1\<lparr>console := console s1 @ [''Gemini Internal Warning (retrying usually fixes this):'']\<rparr>
             else s1\<lparr>error := Some connectionMessage\<rparr>)"

section \<open>Runs of a session\<close>

text \<open>
  The events of a running session: an inbound message (with what the callback reads from
  outside), the end of playback of a source node, a channel error, and the two settings
  the refs mirror. A run stops at the first exception that leaves a callback.
\<close>

datatype event =
    Message env message
  | Ended nat
  | ChannelError channelError
  | SetUseBrowserTTS bool
  | SetTargetLanguage string

fun step :: "event \<Rightarrow> app_state \<Rightarrow> outcome" where
  "step (Message e m) s = onmessage e m s"
| "step (Ended n) s = Normal (sourceEnded n s)"
| "step (ChannelError err) s = Normal (onerror err s)"
| "step (SetUseBrowserTTS b) s = Normal (s\<lparr>useBrowserTTS := b\<rparr>)"
| "step (SetTargetLanguage l) s = Normal (s\<lparr>targetLanguage := l\<rparr>)"

fun run :: "event list \<Rightarrow> app_state \<Rightarrow> outcome" where
  "run [] s = Normal s"
| "run (ev # evs) s =
     (case step ev s of
        Normal s1 \<Rightarrow> run evs s1
      | Throw x s1 \<Rightarrow> Throw x s1)"

section \<open>Predicates on events and schedules\<close>

fun interrupting :: "event \<Rightarrow> bool" where
  "interrupting (Message e m) = interrupted m"
| "interrupting ev = False"

definition endTime :: "source_node \<Rightarrow> real" where
  "endTime src = startTime src + duration (buffer src)"

definition noOverlap :: "source_node list \<Rightarrow> bool" where
  \<comment> \<open>each scheduled buffer ends before any later scheduled buffer starts\<close>
  "noOverlap srcs = sorted_wrt (\<lambda>a b. endTime a \<le> startTime b) srcs"

fun clocks :: "event list \<Rightarrow> real list" where
  \<comment> \<open>the device times read by the messages of a run, in order\<close>
  "clocks [] = []"
| "clocks (Message e m # evs) = currentTime e # clocks evs"
| "clocks (ev # evs) = clocks evs"

definition startedBy :: "event \<Rightarrow> app_state \<Rightarrow> source_node list" where
  \<comment> \<open>the sources started while one event is handled in \<open>s\<close>\<close>
  "startedBy ev s = drop (length (started s)) (started (stateOf (step ev s)))"

definition newlyStarted :: "event list \<Rightarrow> app_state \<Rightarrow> source_node list" where
  \<comment> \<open>the sources started during a run from \<open>s\<close>, in order\<close>
  "newlyStarted evs s = drop (length (started s)) (started (stateOf (run evs s)))"

fun enqueueLog :: "event list \<Rightarrow> app_state \<Rightarrow> (real \<times> audio_buffer) list" where
  \<comment> \<open>for each buffer started during a run from \<open>s\<close>: the device time read by the message
      that enqueued it, and the buffer\<close>
  "enqueueLog [] s = []"
| "enqueueLog (Message e m # evs) s =
     map (\<lambda>src. (currentTime e, buffer src)) (startedBy (Message e m) s) @
     (case onmessage e m s of
        Normal s1 \<Rightarrow> enqueueLog evs s1
      | Throw x s1 \<Rightarrow> [])"
| "enqueueLog (ev # evs) s =
     (case step ev s of
        Normal s1 \<Rightarrow> enqueueLog evs s1
      | Throw x s1 \<Rightarrow> [])"

text \<open>
  The enqueue rule as the specification words it, iterated over a list of requests
  (device time, buffer): \<open>t0 = max(cursor, deviceNow)\<close>, the buffer starts at \<open>t0\<close>, and
  the cursor becomes \<open>t0 + duration\<close>.
\<close>

fun specSchedule :: "real \<Rightarrow> (real \<times> audio_buffer) list \<Rightarrow> real list" where
  "specSchedule cursor [] = []"
| "specSchedule cursor ((deviceNow, b) # requests) =
     max cursor deviceNow # specSchedule (max cursor deviceNow + duration b) requests"

fun observedTag :: "event \<Rightarrow> string option" where
  \<comment> \<open>the non-empty string language tag an event delivers, if any\<close>
  "observedTag (Message e m) =
     (case inputTranscription m of
        None \<Rightarrow> None
      | Some tr \<Rightarrow>
          (case languageCode tr of
             Some (CodeStr code) \<Rightarrow> if code = [] then None else Some code
           | _ \<Rightarrow> None))"
| "observedTag ev = None"

fun hostTagsOnly :: "event list \<Rightarrow> bool" where
  \<comment> \<open>no tag other than a French one is delivered\<close>
  "hostTagsOnly [] = True"
| "hostTagsOnly (ev # evs) =
     ((case observedTag ev of None \<Rightarrow> True | Some code \<Rightarrow> isFrench code) \<and> hostTagsOnly evs)"

fun cancelAvailable :: "event \<Rightarrow> bool" where
  \<comment> \<open>an interruption arrives only where \<open>window.speechSynthesis\<close> exists\<close>
  "cancelAvailable (Message e m) = (\<not> interrupted m \<or> speechSynthesis e)"
| "cancelAvailable ev = True"

section \<open>Example data\<close>

definition streamingState :: app_state where
  \<comment> \<open>the state once the audio contexts exist and the session is open\<close>
  "streamingState = initialState\<lparr>isConnected := True, hasAudioContext := True, hasOutputAnalyser := True\<rparr>"

definition exampleDecoder :: "string \<Rightarrow> exn + audio_buffer" where
  \<comment> \<open>a decoder for the examples: half a second of audio per payload character, and a
      payload of odd length is rejected\<close>
  "exampleDecoder payload =
     (if even (length payload) then Inr \<lparr>bufLength = 12000 * length payload, bufSampleRate = 24000\<rparr>
      else Inl (AudioError ''payload length is not a multiple of the sample width''))"

definition exampleEnv :: "real \<Rightarrow> env" where
  \<comment> \<open>the updaters run after the handler has cleared the language ref\<close>
  "exampleEnv t =
     \<lparr>currentTime = t,
      userUpdater = \<lparr>readNow = 1000, readDate = 1000, readLanguage = None\<rparr>,
      modelUpdater = \<lparr>readNow = 1001, readDate = 1001, readLanguage = None\<rparr>,
      speechSynthesis = True, decodeAudio = exampleDecoder\<rparr>"

definition emptyMessage :: message where
  "emptyMessage =
     \<lparr>inputTranscription = None, outputTranscription = None, turnComplete = False,
      interrupted = False, inlineAudio = None\<rparr>"

definition inputMessage :: "string \<Rightarrow> langCode option \<Rightarrow> message" where
  "inputMessage txt code = emptyMessage\<lparr>inputTranscription := Some \<lparr>trText = Some txt, languageCode = code\<rparr>\<rparr>"

definition outputMessage :: "string \<Rightarrow> message" where
  "outputMessage txt = emptyMessage\<lparr>outputTranscription := Some \<lparr>trText = Some txt, languageCode = None\<rparr>\<rparr>"

definition turnCompleteMessage :: message where
  "turnCompleteMessage = emptyMessage\<lparr>turnComplete := True\<rparr>"

definition audioMessage :: "string \<Rightarrow> message" where
  "audioMessage payload = emptyMessage\<lparr>inlineAudio := Some payload\<rparr>"

definition interruptedMessage :: message where
  "interruptedMessage = emptyMessage\<lparr>interrupted := True\<rparr>"

definition clientThenHost :: "event list" where
  "clientThenHost =
     [SetUseBrowserTTS True,
      Message (exampleEnv 0) (inputMessage ''Hola'' (Some (CodeStr ''es-ES''))),
      Message (exampleEnv 0) (outputMessage ''Bonjour''),
      Message (exampleEnv 0) turnCompleteMessage,
      Message (exampleEnv 0) (inputMessage ''Merci'' (Some (CodeStr ''fr-FR''))),
      Message (exampleEnv 0) (outputMessage ''Gracias'')]"

definition hostFirst :: "event list" where
  "hostFirst =
     [SetUseBrowserTTS True,
      Message (exampleEnv 0) (inputMessage ''Bonjour'' (Some (CodeStr ''fr-FR''))),
      Message (exampleEnv 0) (outputMessage ''Hello'')]"

definition faultyRun :: "event list" where
  "faultyRun =
     [Message (exampleEnv 0) (inputMessage ''Hola'' (Some (CodeOther True))),
      Message (exampleEnv 0) (audioMessage ''A''),
      Message (exampleEnv 0) (inputMessage '' amigo'' (Some (CodeStr ''es-ES'')))]"

definition afterFlush :: app_state where
  \<comment> \<open>a two-second buffer started at 0 and flushed by an interruption at 1\<close>
  "afterFlush =
     stateOf (run [Message (exampleEnv 0) (audioMessage ''AAAA''),
                   Message (exampleEnv 1) interruptedMessage] streamingState)"

definition enqueueRun :: "event list" where
  \<comment> \<open>three buffers, with a text message, a completion and a failed decode in between\<close>
  "enqueueRun =
     [Message (exampleEnv 1) (audioMessage ''AA''),
      Ended 1,
      Message (exampleEnv (3/2)) (audioMessage ''A''),
      Message (exampleEnv (7/4)) (inputMessage ''Hola'' None),
      Message (exampleEnv (7/4)) (audioMessage ''AAAA''),
      Message (exampleEnv 9) (audioMessage ''AA'')]"

definition playing :: app_state where
  \<comment> \<open>a two-second buffer started at 0 and still active\<close>
  "playing = stateOf (onmessage (exampleEnv 0) (audioMessage ''AAAA'') streamingState)"

definition afterInterrupt :: "event list" where
  "afterInterrupt =
     [Message (exampleEnv (5/4)) (inputMessage ''Hola'' None),
      Message (exampleEnv (3/2)) (audioMessage ''AA'')]"

definition bonjourTurn :: "event list" where
  \<comment> \<open>two partial inputs, the first carrying a language tag, and a partial output\<close>
  "bonjourTurn =
     [Message (exampleEnv 0) (inputMessage ''Bon'' (Some (CodeStr ''fr-FR''))),
      Message (exampleEnv 0) (inputMessage ''jour'' None),
      Message (exampleEnv 0) (outputMessage '' Hello '')]"

definition frisianTurn :: "event list" where
  \<comment> \<open>a turn spoken in North Frisian, with browser speech synthesis switched on\<close>
  "frisianTurn =
     [SetUseBrowserTTS True,
      Message (exampleEnv 0) (inputMessage ''Moin'' (Some (CodeStr ''frr-DE''))),
      Message (exampleEnv 0) (outputMessage ''Bonjour''),
      Message (exampleEnv 0) turnCompleteMessage]"

section \<open>Which fields each operation leaves alone\<close>

text \<open>
  Each handler writes a few fields of the state; the lemmas of this section list, handler by
  handler, the fields that keep their value.
\<close>

lemma duration_nonneg: "0 \<le> duration b"
  by (simp add: duration_def)

lemma handleTranscription_stateOf:
  "stateOf (handleTranscription e m s) =
     (case handleInput m s of
        Throw x s1 \<Rightarrow> s1
      | Normal s1 \<Rightarrow> if turnComplete m then stateOf (finalizeTurn e (handleOutput m s1)) else handleOutput m s1)"
  by (simp add: handleTranscription_def Let_def split: outcome.splits)

lemma appendUserText_frame:
  "isConnected (appendUserText txt s) = isConnected s"
  "error (appendUserText txt s) = error s"
  "transcripts (appendUserText txt s) = transcripts s"
  "streamingModelText (appendUserText txt s) = streamingModelText s"
  "useBrowserTTS (appendUserText txt s) = useBrowserTTS s"
  "targetLanguage (appendUserText txt s) = targetLanguage s"
  "hasAudioContext (appendUserText txt s) = hasAudioContext s"
  "hasOutputAnalyser (appendUserText txt s) = hasOutputAnalyser s"
  "nextStartTime (appendUserText txt s) = nextStartTime s"
  "sources (appendUserText txt s) = sources s"
  "currentOutputTrans (appendUserText txt s) = currentOutputTrans s"
  "currentInputLanguage (appendUserText txt s) = currentInputLanguage s"
  "lastClientLanguage (appendUserText txt s) = lastClientLanguage s"
  "nextNodeId (appendUserText txt s) = nextNodeId s"
  "started (appendUserText txt s) = started s"
  "stopped (appendUserText txt s) = stopped s"
  "spoken (appendUserText txt s) = spoken s"
  "cancels (appendUserText txt s) = cancels s"
  "console (appendUserText txt s) = console s"
  by (simp_all add: appendUserText_def split: option.splits)

lemma appendModelText_frame:
  "isConnected (appendModelText txt s) = isConnected s"
  "error (appendModelText txt s) = error s"
  "transcripts (appendModelText txt s) = transcripts s"
  "streamingUserText (appendModelText txt s) = streamingUserText s"
  "useBrowserTTS (appendModelText txt s) = useBrowserTTS s"
  "targetLanguage (appendModelText txt s) = targetLanguage s"
  "hasAudioContext (appendModelText txt s) = hasAudioContext s"
  "hasOutputAnalyser (appendModelText txt s) = hasOutputAnalyser s"
  "nextStartTime (appendModelText txt s) = nextStartTime s"
  "sources (appendModelText txt s) = sources s"
  "currentInputTrans (appendModelText txt s) = currentInputTrans s"
  "currentInputLanguage (appendModelText txt s) = currentInputLanguage s"
  "lastClientLanguage (appendModelText txt s) = lastClientLanguage s"
  "nextNodeId (appendModelText txt s) = nextNodeId s"
  "started (appendModelText txt s) = started s"
  "stopped (appendModelText txt s) = stopped s"
  "spoken (appendModelText txt s) = spoken s"
  "cancels (appendModelText txt s) = cancels s"
  "console (appendModelText txt s) = console s"
  by (simp_all add: appendModelText_def split: option.splits)

lemma handleInput_frame:
  "isConnected (stateOf (handleInput m s)) = isConnected s"
  "error (stateOf (handleInput m s)) = error s"
  "transcripts (stateOf (handleInput m s)) = transcripts s"
  "streamingModelText (stateOf (handleInput m s)) = streamingModelText s"
  "useBrowserTTS (stateOf (handleInput m s)) = useBrowserTTS s"
  "targetLanguage (stateOf (handleInput m s)) = targetLanguage s"
  "hasAudioContext (stateOf (handleInput m s)) = hasAudioContext s"
  "hasOutputAnalyser (stateOf (handleInput m s)) = hasOutputAnalyser s"
  "nextStartTime (stateOf (handleInput m s)) = nextStartTime s"
  "sources (stateOf (handleInput m s)) = sources s"
  "currentOutputTrans (stateOf (handleInput m s)) = currentOutputTrans s"
  "nextNodeId (stateOf (handleInput m s)) = nextNodeId s"
  "started (stateOf (handleInput m s)) = started s"
  "stopped (stateOf (handleInput m s)) = stopped s"
  "spoken (stateOf (handleInput m s)) = spoken s"
  "cancels (stateOf (handleInput m s)) = cancels s"
  "console (stateOf (handleInput m s)) = console s"
  by (simp_all add: handleInput_def Let_def appendUserText_frame split: option.splits langCode.splits)

lemma handleOutput_frame:
  "isConnected (handleOutput m s) = isConnected s"
  "error (handleOutput m s) = error s"
  "transcripts (handleOutput m s) = transcripts s"
  "streamingUserText (handleOutput m s) = streamingUserText s"
  "useBrowserTTS (handleOutput m s) = useBrowserTTS s"
  "targetLanguage (handleOutput m s) = targetLanguage s"
  "hasAudioContext (handleOutput m s) = hasAudioContext s"
  "hasOutputAnalyser (handleOutput m s) = hasOutputAnalyser s"
  "nextStartTime (handleOutput m s) = nextStartTime s"
  "sources (handleOutput m s) = sources s"
  "currentInputTrans (handleOutput m s) = currentInputTrans s"
  "currentInputLanguage (handleOutput m s) = currentInputLanguage s"
  "lastClientLanguage (handleOutput m s) = lastClientLanguage s"
  "nextNodeId (handleOutput m s) = nextNodeId s"
  "started (handleOutput m s) = started s"
  "stopped (handleOutput m s) = stopped s"
  "spoken (handleOutput m s) = spoken s"
  "cancels (handleOutput m s) = cancels s"
  "console (handleOutput m s) = console s"
  by (simp_all add: handleOutput_def appendModelText_frame split: option.splits)

lemma speakText_frame:
  "isConnected (speakText e txt fr s) = isConnected s"
  "error (speakText e txt fr s) = error s"
  "transcripts (speakText e txt fr s) = transcripts s"
  "streamingUserText (speakText e txt fr s) = streamingUserText s"
  "streamingModelText (speakText e txt fr s) = streamingModelText s"
  "useBrowserTTS (speakText e txt fr s) = useBrowserTTS s"
  "targetLanguage (speakText e txt fr s) = targetLanguage s"
  "hasAudioContext (speakText e txt fr s) = hasAudioContext s"
  "hasOutputAnalyser (speakText e txt fr s) = hasOutputAnalyser s"
  "nextStartTime (speakText e txt fr s) = nextStartTime s"
  "sources (speakText e txt fr s) = sources s"
  "currentInputTrans (speakText e txt fr s) = currentInputTrans s"
  "currentOutputTrans (speakText e txt fr s) = currentOutputTrans s"
  "currentInputLanguage (speakText e txt fr s) = currentInputLanguage s"
  "lastClientLanguage (speakText e txt fr s) = lastClientLanguage s"
  "nextNodeId (speakText e txt fr s) = nextNodeId s"
  "started (speakText e txt fr s) = started s"
  "stopped (speakText e txt fr s) = stopped s"
  "cancels (speakText e txt fr s) = cancels s"
  "console (speakText e txt fr s) = console s"
  by (simp_all add: speakText_def)

lemma finalizeUser_frame:
  "isConnected (finalizeUser e txt s) = isConnected s"
  "error (finalizeUser e txt s) = error s"
  "streamingModelText (finalizeUser e txt s) = streamingModelText s"
  "useBrowserTTS (finalizeUser e txt s) = useBrowserTTS s"
  "targetLanguage (finalizeUser e txt s) = targetLanguage s"
  "hasAudioContext (finalizeUser e txt s) = hasAudioContext s"
  "hasOutputAnalyser (finalizeUser e txt s) = hasOutputAnalyser s"
  "nextStartTime (finalizeUser e txt s) = nextStartTime s"
  "sources (finalizeUser e txt s) = sources s"
  "currentOutputTrans (finalizeUser e txt s) = currentOutputTrans s"
  "lastClientLanguage (finalizeUser e txt s) = lastClientLanguage s"
  "nextNodeId (finalizeUser e txt s) = nextNodeId s"
  "started (finalizeUser e txt s) = started s"
  "stopped (finalizeUser e txt s) = stopped s"
  "spoken (finalizeUser e txt s) = spoken s"
  "cancels (finalizeUser e txt s) = cancels s"
  "console (finalizeUser e txt s) = console s"
  by (simp_all add: finalizeUser_def)

lemma finalizeModel_frame:
  "isConnected (finalizeModel e txt fr s) = isConnected s"
  "error (finalizeModel e txt fr s) = error s"
  "streamingUserText (finalizeModel e txt fr s) = streamingUserText s"
  "useBrowserTTS (finalizeModel e txt fr s) = useBrowserTTS s"
  "targetLanguage (finalizeModel e txt fr s) = targetLanguage s"
  "hasAudioContext (finalizeModel e txt fr s) = hasAudioContext s"
  "hasOutputAnalyser (finalizeModel e txt fr s) = hasOutputAnalyser s"
  "nextStartTime (finalizeModel e txt fr s) = nextStartTime s"
  "sources (finalizeModel e txt fr s) = sources s"
  "currentInputTrans (finalizeModel e txt fr s) = currentInputTrans s"
  "currentInputLanguage (finalizeModel e txt fr s) = currentInputLanguage s"
  "lastClientLanguage (finalizeModel e txt fr s) = lastClientLanguage s"
  "nextNodeId (finalizeModel e txt fr s) = nextNodeId s"
  "started (finalizeModel e txt fr s) = started s"
  "stopped (finalizeModel e txt fr s) = stopped s"
  "cancels (finalizeModel e txt fr s) = cancels s"
  "console (finalizeModel e txt fr s) = console s"
  by (simp_all add: finalizeModel_def Let_def speakText_frame)

lemma finalizeTurn_frame:
  "isConnected (stateOf (finalizeTurn e s)) = isConnected s"
  "error (stateOf (finalizeTurn e s)) = error s"
  "useBrowserTTS (stateOf (finalizeTurn e s)) = useBrowserTTS s"
  "targetLanguage (stateOf (finalizeTurn e s)) = targetLanguage s"
  "hasAudioContext (stateOf (finalizeTurn e s)) = hasAudioContext s"
  "hasOutputAnalyser (stateOf (finalizeTurn e s)) = hasOutputAnalyser s"
  "nextStartTime (stateOf (finalizeTurn e s)) = nextStartTime s"
  "sources (stateOf (finalizeTurn e s)) = sources s"
  "lastClientLanguage (stateOf (finalizeTurn e s)) = lastClientLanguage s"
  "nextNodeId (stateOf (finalizeTurn e s)) = nextNodeId s"
  "started (stateOf (finalizeTurn e s)) = started s"
  "stopped (stateOf (finalizeTurn e s)) = stopped s"
  "cancels (stateOf (finalizeTurn e s)) = cancels s"
  "console (stateOf (finalizeTurn e s)) = console s"
  by (simp_all add: finalizeTurn_def Let_def finalizeModel_frame finalizeUser_frame split: langCode.splits)

lemma handleTranscription_frame:
  "isConnected (stateOf (handleTranscription e m s)) = isConnected s"
  "error (stateOf (handleTranscription e m s)) = error s"
  "useBrowserTTS (stateOf (handleTranscription e m s)) = useBrowserTTS s"
  "targetLanguage (stateOf (handleTranscription e m s)) = targetLanguage s"
  "hasAudioContext (stateOf (handleTranscription e m s)) = hasAudioContext s"
  "hasOutputAnalyser (stateOf (handleTranscription e m s)) = hasOutputAnalyser s"
  "nextStartTime (stateOf (handleTranscription e m s)) = nextStartTime s"
  "sources (stateOf (handleTranscription e m s)) = sources s"
  "nextNodeId (stateOf (handleTranscription e m s)) = nextNodeId s"
  "started (stateOf (handleTranscription e m s)) = started s"
  "stopped (stateOf (handleTranscription e m s)) = stopped s"
  "cancels (stateOf (handleTranscription e m s)) = cancels s"
  "console (stateOf (handleTranscription e m s)) = console s"
  by (cases "handleInput m s"; insert handleInput_frame [of m s]; simp add: handleTranscription_stateOf finalizeTurn_frame handleOutput_frame)+

lemma catchLog_frame:
  "isConnected (catchLog l out) = isConnected (stateOf out)"
  "error (catchLog l out) = error (stateOf out)"
  "transcripts (catchLog l out) = transcripts (stateOf out)"
  "streamingUserText (catchLog l out) = streamingUserText (stateOf out)"
  "streamingModelText (catchLog l out) = streamingModelText (stateOf out)"
  "useBrowserTTS (catchLog l out) = useBrowserTTS (stateOf out)"
  "targetLanguage (catchLog l out) = targetLanguage (stateOf out)"
  "hasAudioContext (catchLog l out) = hasAudioContext (stateOf out)"
  "hasOutputAnalyser (catchLog l out) = hasOutputAnalyser (stateOf out)"
  "nextStartTime (catchLog l out) = nextStartTime (stateOf out)"
  "sources (catchLog l out) = sources (stateOf out)"
  "currentInputTrans (catchLog l out) = currentInputTrans (stateOf out)"
  "currentOutputTrans (catchLog l out) = currentOutputTrans (stateOf out)"
  "currentInputLanguage (catchLog l out) = currentInputLanguage (stateOf out)"
  "lastClientLanguage (catchLog l out) = lastClientLanguage (stateOf out)"
  "nextNodeId (catchLog l out) = nextNodeId (stateOf out)"
  "started (catchLog l out) = started (stateOf out)"
  "stopped (catchLog l out) = stopped (stateOf out)"
  "spoken (catchLog l out) = spoken (stateOf out)"
  "cancels (catchLog l out) = cancels (stateOf out)"
  by (cases out; simp)+

lemma startSource_frame:
  "isConnected (startSource b s) = isConnected s"
  "error (startSource b s) = error s"
  "transcripts (startSource b s) = transcripts s"
  "streamingUserText (startSource b s) = streamingUserText s"
  "streamingModelText (startSource b s) = streamingModelText s"
  "useBrowserTTS (startSource b s) = useBrowserTTS s"
  "targetLanguage (startSource b s) = targetLanguage s"
  "hasAudioContext (startSource b s) = hasAudioContext s"
  "hasOutputAnalyser (startSource b s) = hasOutputAnalyser s"
  "currentInputTrans (startSource b s) = currentInputTrans s"
  "currentOutputTrans (startSource b s) = currentOutputTrans s"
  "currentInputLanguage (startSource b s) = currentInputLanguage s"
  "lastClientLanguage (startSource b s) = lastClientLanguage s"
  "stopped (startSource b s) = stopped s"
  "spoken (startSource b s) = spoken s"
  "cancels (startSource b s) = cancels s"
  "console (startSource b s) = console s"
  by (simp_all add: startSource_def Let_def)

lemma playAudio_frame:
  "isConnected (playAudio e m s) = isConnected s"
  "error (playAudio e m s) = error s"
  "transcripts (playAudio e m s) = transcripts s"
  "streamingUserText (playAudio e m s) = streamingUserText s"
  "streamingModelText (playAudio e m s) = streamingModelText s"
  "useBrowserTTS (playAudio e m s) = useBrowserTTS s"
  "targetLanguage (playAudio e m s) = targetLanguage s"
  "hasAudioContext (playAudio e m s) = hasAudioContext s"
  "hasOutputAnalyser (playAudio e m s) = hasOutputAnalyser s"
  "currentInputTrans (playAudio e m s) = currentInputTrans s"
  "currentOutputTrans (playAudio e m s) = currentOutputTrans s"
  "currentInputLanguage (playAudio e m s) = currentInputLanguage s"
  "lastClientLanguage (playAudio e m s) = lastClientLanguage s"
  "stopped (playAudio e m s) = stopped s"
  "spoken (playAudio e m s) = spoken s"
  "cancels (playAudio e m s) = cancels s"
  by (simp_all add: playAudio_def Let_def catchLog_frame startSource_frame split: option.splits sum.splits)

lemma flushAndStop_frame:
  "isConnected (stateOf (flushAndStop e s)) = isConnected s"
  "error (stateOf (flushAndStop e s)) = error s"
  "transcripts (stateOf (flushAndStop e s)) = transcripts s"
  "streamingUserText (stateOf (flushAndStop e s)) = streamingUserText s"
  "streamingModelText (stateOf (flushAndStop e s)) = streamingModelText s"
  "useBrowserTTS (stateOf (flushAndStop e s)) = useBrowserTTS s"
  "targetLanguage (stateOf (flushAndStop e s)) = targetLanguage s"
  "hasAudioContext (stateOf (flushAndStop e s)) = hasAudioContext s"
  "hasOutputAnalyser (stateOf (flushAndStop e s)) = hasOutputAnalyser s"
  "currentInputTrans (stateOf (flushAndStop e s)) = currentInputTrans s"
  "currentOutputTrans (stateOf (flushAndStop e s)) = currentOutputTrans s"
  "currentInputLanguage (stateOf (flushAndStop e s)) = currentInputLanguage s"
  "lastClientLanguage (stateOf (flushAndStop e s)) = lastClientLanguage s"
  "nextNodeId (stateOf (flushAndStop e s)) = nextNodeId s"
  "started (stateOf (flushAndStop e s)) = started s"
  "spoken (stateOf (flushAndStop e s)) = spoken s"
  "console (stateOf (flushAndStop e s)) = console s"
  by (simp_all add: flushAndStop_def Let_def)

lemma sourceEnded_frame:
  "isConnected (sourceEnded n s) = isConnected s"
  "error (sourceEnded n s) = error s"
  "transcripts (sourceEnded n s) = transcripts s"
  "streamingUserText (sourceEnded n s) = streamingUserText s"
  "streamingModelText (sourceEnded n s) = streamingModelText s"
  "useBrowserTTS (sourceEnded n s) = useBrowserTTS s"
  "targetLanguage (sourceEnded n s) = targetLanguage s"
  "hasAudioContext (sourceEnded n s) = hasAudioContext s"
  "hasOutputAnalyser (sourceEnded n s) = hasOutputAnalyser s"
  "nextStartTime (sourceEnded n s) = nextStartTime s"
  "currentInputTrans (sourceEnded n s) = currentInputTrans s"
  "currentOutputTrans (sourceEnded n s) = currentOutputTrans s"
  "currentInputLanguage (sourceEnded n s) = currentInputLanguage s"
  "lastClientLanguage (sourceEnded n s) = lastClientLanguage s"
  "nextNodeId (sourceEnded n s) = nextNodeId s"
  "started (sourceEnded n s) = started s"
  "stopped (sourceEnded n s) = stopped s"
  "spoken (sourceEnded n s) = spoken s"
  "cancels (sourceEnded n s) = cancels s"
  "console (sourceEnded n s) = console s"
  by (simp_all add: sourceEnded_def)

lemma onerror_frame:
  "isConnected (onerror err s) = isConnected s"
  "transcripts (onerror err s) = transcripts s"
  "streamingUserText (onerror err s) = streamingUserText s"
  "streamingModelText (onerror err s) = streamingModelText s"
  "useBrowserTTS (onerror err s) = useBrowserTTS s"
  "targetLanguage (onerror err s) = targetLanguage s"
  "hasAudioContext (onerror err s) = hasAudioContext s"
  "hasOutputAnalyser (onerror err s) = hasOutputAnalyser s"
  "nextStartTime (onerror err s) = nextStartTime s"
  "sources (onerror err s) = sources s"
  "currentInputTrans (onerror err s) = currentInputTrans s"
  "currentOutputTrans (onerror err s) = currentOutputTrans s"
  "currentInputLanguage (onerror err s) = currentInputLanguage s"
  "lastClientLanguage (onerror err s) = lastClientLanguage s"
  "nextNodeId (onerror err s) = nextNodeId s"
  "started (onerror err s) = started s"
  "stopped (onerror err s) = stopped s"
  "spoken (onerror err s) = spoken s"
  "cancels (onerror err s) = cancels s"
  by (simp_all add: onerror_def Let_def split: channelError.splits)


section \<open>The playback part of a message\<close>

lemma onmessage_stateOf:
  "stateOf (onmessage e m s) =
     (if interrupted m
      then stateOf (flushAndStop e (playAudio e m (catchLog ''Error processing transcription message:'' (handleTranscription e m s))))
      else playAudio e m (catchLog ''Error processing transcription message:'' (handleTranscription e m s)))"
  by (simp add: onmessage_def Let_def)

lemma onmessage_frame:
  "isConnected (stateOf (onmessage e m s)) = isConnected s"
  "error (stateOf (onmessage e m s)) = error s"
  "useBrowserTTS (stateOf (onmessage e m s)) = useBrowserTTS s"
  "targetLanguage (stateOf (onmessage e m s)) = targetLanguage s"
  "hasAudioContext (stateOf (onmessage e m s)) = hasAudioContext s"
  "hasOutputAnalyser (stateOf (onmessage e m s)) = hasOutputAnalyser s"
  by (simp_all add: onmessage_stateOf flushAndStop_frame playAudio_frame catchLog_frame
      handleTranscription_frame)

lemma transcribed_playback:
  "nextStartTime (catchLog l (handleTranscription e m s)) = nextStartTime s"
  "sources (catchLog l (handleTranscription e m s)) = sources s"
  "started (catchLog l (handleTranscription e m s)) = started s"
  "stopped (catchLog l (handleTranscription e m s)) = stopped s"
  "nextNodeId (catchLog l (handleTranscription e m s)) = nextNodeId s"
  "useBrowserTTS (catchLog l (handleTranscription e m s)) = useBrowserTTS s"
  "hasAudioContext (catchLog l (handleTranscription e m s)) = hasAudioContext s"
  "hasOutputAnalyser (catchLog l (handleTranscription e m s)) = hasOutputAnalyser s"
  by (simp_all add: catchLog_frame handleTranscription_frame)

lemma playAudio_cursor:
  "nextStartTime s \<le> nextStartTime (playAudio e m s)"
proof -
  have "nextStartTime s \<le> max (nextStartTime s) (currentTime e) + duration b" for b
    using duration_nonneg [of b] by linarith
  then show ?thesis
    by (simp add: playAudio_def Let_def catchLog_frame startSource_def split: option.splits sum.splits)
qed

lemma step_cursor:
  assumes "\<not> interrupting ev"
  shows "nextStartTime s \<le> nextStartTime (stateOf (step ev s))"
proof (cases ev)
  case (Message e m)
  with assms have "\<not> interrupted m" by simp
  then show ?thesis
    using playAudio_cursor [of "catchLog ''Error processing transcription message:'' (handleTranscription e m s)" e m]
    by (simp add: Message onmessage_stateOf transcribed_playback)
qed (simp_all add: sourceEnded_frame onerror_frame)

lemma run_Cons_stateOf:
  "stateOf (run (ev # evs) s) =
     (case step ev s of Normal s1 \<Rightarrow> stateOf (run evs s1) | Throw x s1 \<Rightarrow> s1)"
  by (simp split: outcome.splits)

lemma run_cursor:
  assumes "\<forall>ev\<in>set evs. \<not> interrupting ev"
  shows "nextStartTime s \<le> nextStartTime (stateOf (run evs s))"
  using assms
proof (induction evs arbitrary: s)
  case Nil
  then show ?case by simp
next
  case (Cons ev evs)
  then have le: "nextStartTime s \<le> nextStartTime (stateOf (step ev s))"
    by (simp add: step_cursor)
  show ?case
  proof (cases "step ev s")
    case (Normal s1)
    with le Cons.IH [of s1] Cons.prems show ?thesis by simp
  next
    case (Throw x s1)
    with le show ?thesis by simp
  qed
qed

lemma flushAndStop_effect:
  "sources (stateOf (flushAndStop e s)) = []"
  "nextStartTime (stateOf (flushAndStop e s)) = 0"
  "stopped (stateOf (flushAndStop e s)) = stopped s @ map nodeId (sources s)"
  by (simp_all add: flushAndStop_def Let_def)

lemma playAudio_sources:
  "set (sources s) \<subseteq> set (sources (playAudio e m s))"
  by (auto simp: playAudio_def Let_def catchLog_frame startSource_def split: option.splits sum.splits)

section \<open>Buffers started along a run\<close>

lemma step_Normal:
  assumes "\<not> interrupting ev"
  shows "\<exists>s1. step ev s = Normal s1"
  using assms by (cases ev) (simp_all add: onmessage_def Let_def)

lemma playAudio_cases:
  "(started (playAudio e m s) = started s \<and>
      (nextStartTime (playAudio e m s) = nextStartTime s \<or>
       nextStartTime (playAudio e m s) = max (nextStartTime s) (currentTime e))) \<or>
   (\<exists>b. started (playAudio e m s) =
           started s @ [\<lparr>nodeId = nextNodeId s, startTime = max (nextStartTime s) (currentTime e), buffer = b\<rparr>] \<and>
         nextStartTime (playAudio e m s) = max (nextStartTime s) (currentTime e) + duration b)"
  by (auto simp: playAudio_def Let_def startSource_def split: option.splits sum.splits)

text \<open>What one event that does not interrupt does to the started log and the cursor.\<close>

lemma step_started:
  assumes "\<not> interrupting ev"
  shows "(started (stateOf (step ev s)) = started s \<and>
            (nextStartTime (stateOf (step ev s)) = nextStartTime s \<or>
             (\<exists>e m. ev = Message e m \<and>
                nextStartTime (stateOf (step ev s)) = max (nextStartTime s) (currentTime e)))) \<or>
         (\<exists>e m b. ev = Message e m \<and>
            started (stateOf (step ev s)) =
              started s @ [\<lparr>nodeId = nextNodeId s, startTime = max (nextStartTime s) (currentTime e), buffer = b\<rparr>] \<and>
            nextStartTime (stateOf (step ev s)) = max (nextStartTime s) (currentTime e) + duration b)"
proof (cases ev)
  case (Message e m)
  with assms have ni: "\<not> interrupted m" by simp
  let ?c = "catchLog ''Error processing transcription message:'' (handleTranscription e m s)"
  have st: "stateOf (step ev s) = playAudio e m ?c"
    using ni by (simp add: Message onmessage_stateOf)
  show ?thesis
    using playAudio_cases [of e m ?c]
    unfolding st by (simp add: Message transcribed_playback)
qed (simp_all add: sourceEnded_frame onerror_frame)


lemma started_grows_step:
  "\<exists>xs. started (stateOf (step ev s)) = started s @ xs"
proof (cases ev)
  case (Message e m)
  let ?c = "catchLog ''Error processing transcription message:'' (handleTranscription e m s)"
  have "\<exists>xs. started (playAudio e m ?c) = started s @ xs"
    using playAudio_cases [of e m ?c] by (auto simp: transcribed_playback)
  then show ?thesis
    by (simp add: Message onmessage_stateOf flushAndStop_frame)
qed (simp_all add: sourceEnded_frame onerror_frame)

lemma started_grows_run:
  "\<exists>xs. started (stateOf (run evs s)) = started s @ xs"
proof (induction evs arbitrary: s)
  case Nil
  then show ?case by simp
next
  case (Cons ev evs)
  obtain xs where xs: "started (stateOf (step ev s)) = started s @ xs"
    using started_grows_step by blast
  show ?case
  proof (cases "step ev s")
    case (Normal s1)
    obtain ys where "started (stateOf (run evs s1)) = started s1 @ ys"
      using Cons.IH by blast
    with xs Normal show ?thesis by simp
  next
    case (Throw x s1)
    with xs show ?thesis by simp
  qed
qed

lemma run_started:
  "started (stateOf (run evs s)) = started s @ newlyStarted evs s"
  using started_grows_run [of evs s] by (auto simp: newlyStarted_def)

lemma newlyStarted_Nil:
  "newlyStarted [] s = []"
  by (simp add: newlyStarted_def)


lemma newlyStarted_Cons:
  assumes "\<not> interrupting ev"
  shows "newlyStarted (ev # evs) s = startedBy ev s @ newlyStarted evs (stateOf (step ev s))"
proof -
  let ?s1 = "stateOf (step ev s)"
  obtain s1 where "step ev s = Normal s1"
    using step_Normal [OF assms] by blast
  then have run: "stateOf (run (ev # evs) s) = stateOf (run evs ?s1)"
    by simp
  have one: "started ?s1 = started s @ startedBy ev s"
    using started_grows_step [of ev s] by (auto simp: startedBy_def)
  have full: "started (stateOf (run (ev # evs) s)) =
      started s @ (startedBy ev s @ newlyStarted evs ?s1)"
    using run_started [of evs ?s1] by (simp only: run one append_assoc)
  have "newlyStarted (ev # evs) s = drop (length (started s)) (started (stateOf (run (ev # evs) s)))"
    by (simp only: newlyStarted_def)
  also have "\<dots> = drop (length (started s)) (started s @ (startedBy ev s @ newlyStarted evs ?s1))"
    by (simp only: full)
  also have "\<dots> = startedBy ev s @ newlyStarted evs ?s1"
    by simp
  finally show ?thesis .
qed

lemma enqueueLog_Cons:
  assumes "\<not> interrupting ev"
  shows "enqueueLog (ev # evs) s =
           (case ev of
              Message e m \<Rightarrow> map (\<lambda>src. (currentTime e, buffer src)) (startedBy ev s)
            | _ \<Rightarrow> []) @
           enqueueLog evs (stateOf (step ev s))"
proof -
  obtain s1 where "step ev s = Normal s1"
    using step_Normal [OF assms] by blast
  then show ?thesis
    by (cases ev) simp_all
qed

lemma step_summary:
  assumes "\<not> interrupting ev"
  shows "(startedBy ev s = [] \<and>
            (nextStartTime (stateOf (step ev s)) = nextStartTime s \<or>
             (\<exists>e m. ev = Message e m \<and>
                nextStartTime (stateOf (step ev s)) = max (nextStartTime s) (currentTime e)))) \<or>
         (\<exists>e m b. ev = Message e m \<and>
            startedBy ev s =
              [\<lparr>nodeId = nextNodeId s, startTime = max (nextStartTime s) (currentTime e), buffer = b\<rparr>] \<and>
            nextStartTime (stateOf (step ev s)) = max (nextStartTime s) (currentTime e) + duration b)"
  using step_started [OF assms, of s] by (auto simp: startedBy_def)

lemma specSchedule_clamp:
  assumes "\<forall>r\<in>set rs. t \<le> fst r"
  shows "specSchedule (max c t) rs = specSchedule c rs"
proof (cases rs)
  case Nil
  then show ?thesis by simp
next
  case (Cons r rest)
  obtain deviceNow b where r: "r = (deviceNow, b)" by (cases r)
  with assms Cons have "t \<le> deviceNow" by simp
  then have "max (max c t) deviceNow = max c deviceNow" by simp
  then show ?thesis by (simp add: Cons r)
qed

lemma enqueueLog_clocks:
  assumes "\<forall>ev\<in>set evs. \<not> interrupting ev"
  shows "fst ` set (enqueueLog evs s) \<subseteq> set (clocks evs)"
  using assms
proof (induction evs arbitrary: s)
  case Nil
  then show ?case by simp
next
  case (Cons ev evs)
  then have ni: "\<not> interrupting ev" and rest: "fst ` set (enqueueLog evs (stateOf (step ev s))) \<subseteq> set (clocks evs)"
    by simp_all
  show ?case
    using rest unfolding enqueueLog_Cons [OF ni] by (cases ev) auto
qed


lemma step_cases:
  assumes "\<not> interrupting ev"
  obtains
    (quiet) "startedBy ev s = []" "nextStartTime (stateOf (step ev s)) = nextStartTime s"
  | (clamped) e m where "startedBy ev s = []" "ev = Message e m"
      "nextStartTime (stateOf (step ev s)) = max (nextStartTime s) (currentTime e)"
  | (enqueued) e m b where "ev = Message e m"
      "startedBy ev s =
         [\<lparr>nodeId = nextNodeId s, startTime = max (nextStartTime s) (currentTime e), buffer = b\<rparr>]"
      "nextStartTime (stateOf (step ev s)) = max (nextStartTime s) (currentTime e) + duration b"
  using step_summary [OF assms, of s] by blast

lemma quiet_log:
  assumes "startedBy ev s = []"
  shows "(case ev of
            Message e m \<Rightarrow> map (\<lambda>src. (currentTime e, buffer src)) (startedBy ev s)
          | _ \<Rightarrow> []) = []"
  using assms by (cases ev) simp_all

lemma step_new_bounds:
  assumes "\<not> interrupting ev"
  shows "\<forall>src\<in>set (startedBy ev s). nextStartTime s \<le> startTime src"
    and "\<forall>src\<in>set (startedBy ev s). endTime src \<le> nextStartTime (stateOf (step ev s))"
    and "noOverlap (startedBy ev s)"
proof -
  show "\<forall>src\<in>set (startedBy ev s). nextStartTime s \<le> startTime src"
    by (cases rule: step_cases [OF assms, where s = s]) simp_all
  show "\<forall>src\<in>set (startedBy ev s). endTime src \<le> nextStartTime (stateOf (step ev s))"
    by (cases rule: step_cases [OF assms, where s = s]) (simp_all add: endTime_def)
  show "noOverlap (startedBy ev s)"
    by (cases rule: step_cases [OF assms, where s = s]) (simp_all add: noOverlap_def)
qed

lemma run_buffers:
  assumes "\<forall>ev\<in>set evs. \<not> interrupting ev"
  shows "map buffer (newlyStarted evs s) = map snd (enqueueLog evs s)"
  using assms
proof (induction evs arbitrary: s)
  case Nil
  then show ?case by (simp add: newlyStarted_Nil)
next
  case (Cons ev evs)
  then have ni: "\<not> interrupting ev"
    and ih: "map buffer (newlyStarted evs (stateOf (step ev s))) = map snd (enqueueLog evs (stateOf (step ev s)))"
    by simp_all
  consider
    (quiet) "startedBy ev s = []" "nextStartTime (stateOf (step ev s)) = nextStartTime s"
  | (clamped) e m where "startedBy ev s = []" "ev = Message e m"
      "nextStartTime (stateOf (step ev s)) = max (nextStartTime s) (currentTime e)"
  | (enqueued) e m b where "ev = Message e m"
      "startedBy ev s =
         [\<lparr>nodeId = nextNodeId s, startTime = max (nextStartTime s) (currentTime e), buffer = b\<rparr>]"
      "nextStartTime (stateOf (step ev s)) = max (nextStartTime s) (currentTime e) + duration b"
    using step_summary [OF ni, of s] by blast
  then have "map buffer (startedBy ev s) =
          map snd (case ev of Message e m \<Rightarrow> map (\<lambda>src. (currentTime e, buffer src)) (startedBy ev s)
                   | _ \<Rightarrow> [])"
  proof cases
    case quiet
    then show ?thesis by (simp add: quiet_log)
  next
    case (clamped e m)
    then show ?thesis by (simp add: quiet_log)
  next
    case (enqueued e m b)
    then show ?thesis by simp
  qed
  then show ?case
    by (simp add: newlyStarted_Cons [OF ni] enqueueLog_Cons [OF ni] ih)
qed

lemma run_after_cursor:
  assumes "\<forall>ev\<in>set evs. \<not> interrupting ev"
  shows "\<forall>src\<in>set (newlyStarted evs s). nextStartTime s \<le> startTime src"
  using assms
proof (induction evs arbitrary: s)
  case Nil
  then show ?case by (simp add: newlyStarted_Nil)
next
  case (Cons ev evs)
  let ?s1 = "stateOf (step ev s)"
  from Cons have ni: "\<not> interrupting ev"
    and ih: "\<forall>src\<in>set (newlyStarted evs ?s1). nextStartTime ?s1 \<le> startTime src"
    by simp_all
  have le: "nextStartTime s \<le> nextStartTime ?s1"
    using ni by (rule step_cursor)
  show ?case
  proof
    fix src
    assume "src \<in> set (newlyStarted (ev # evs) s)"
    then consider "src \<in> set (startedBy ev s)" | "src \<in> set (newlyStarted evs ?s1)"
      by (auto simp: newlyStarted_Cons [OF ni])
    then show "nextStartTime s \<le> startTime src"
    proof cases
      case 1
      then show ?thesis using step_new_bounds(1) [OF ni, of s] by blast
    next
      case 2
      with ih have "nextStartTime ?s1 \<le> startTime src" by blast
      with le show ?thesis by linarith
    qed
  qed
qed

lemma run_noOverlap:
  assumes "\<forall>ev\<in>set evs. \<not> interrupting ev"
  shows "noOverlap (newlyStarted evs s)"
  using assms
proof (induction evs arbitrary: s)
  case Nil
  then show ?case by (simp add: newlyStarted_Nil noOverlap_def)
next
  case (Cons ev evs)
  let ?s1 = "stateOf (step ev s)"
  from Cons have ni: "\<not> interrupting ev" and rest: "\<forall>ev\<in>set evs. \<not> interrupting ev"
    and ih: "noOverlap (newlyStarted evs ?s1)"
    by simp_all
  have later: "\<forall>src\<in>set (newlyStarted evs ?s1). nextStartTime ?s1 \<le> startTime src"
    using rest by (rule run_after_cursor)
  have ends: "\<forall>src\<in>set (startedBy ev s). endTime src \<le> nextStartTime ?s1"
    using ni by (rule step_new_bounds(2))
  have one: "noOverlap (startedBy ev s)"
    using ni by (rule step_new_bounds(3))
  have cross: "\<forall>a\<in>set (startedBy ev s). \<forall>b\<in>set (newlyStarted evs ?s1). endTime a \<le> startTime b"
  proof (intro ballI)
    fix a b
    assume "a \<in> set (startedBy ev s)" and "b \<in> set (newlyStarted evs ?s1)"
    then have "endTime a \<le> nextStartTime ?s1" and "nextStartTime ?s1 \<le> startTime b"
      using ends later by blast+
    then show "endTime a \<le> startTime b" by linarith
  qed
  have "sorted_wrt (\<lambda>a b. endTime a \<le> startTime b) (startedBy ev s @ newlyStarted evs ?s1)"
    using one ih cross unfolding noOverlap_def sorted_wrt_append by blast
  then show ?case
    by (simp only: newlyStarted_Cons [OF ni] noOverlap_def)
qed

lemma clocks_Cons_sorted:
  assumes "sorted (clocks (ev # evs))"
  shows "sorted (clocks evs)"
    and "ev = Message e m \<Longrightarrow> \<forall>t\<in>set (clocks evs). currentTime e \<le> t"
  using assms by (cases ev; simp)+

lemma run_startTimes:
  assumes "\<forall>ev\<in>set evs. \<not> interrupting ev" and "sorted (clocks evs)"
  shows "map startTime (newlyStarted evs s) = specSchedule (nextStartTime s) (enqueueLog evs s)"
  using assms
proof (induction evs arbitrary: s)
  case Nil
  then show ?case by (simp add: newlyStarted_Nil)
next
  case (Cons ev evs)
  let ?s1 = "stateOf (step ev s)"
  from Cons.prems have ni: "\<not> interrupting ev" and rest: "\<forall>ev\<in>set evs. \<not> interrupting ev"
    by simp_all
  have sorted_rest: "sorted (clocks evs)"
    using Cons.prems(2) by (rule clocks_Cons_sorted(1))
  have ih: "map startTime (newlyStarted evs ?s1) = specSchedule (nextStartTime ?s1) (enqueueLog evs ?s1)"
    using rest sorted_rest by (rule Cons.IH)
  consider
    (quiet) "startedBy ev s = []" "nextStartTime (stateOf (step ev s)) = nextStartTime s"
  | (clamped) e m where "startedBy ev s = []" "ev = Message e m"
      "nextStartTime (stateOf (step ev s)) = max (nextStartTime s) (currentTime e)"
  | (enqueued) e m b where "ev = Message e m"
      "startedBy ev s =
         [\<lparr>nodeId = nextNodeId s, startTime = max (nextStartTime s) (currentTime e), buffer = b\<rparr>]"
      "nextStartTime (stateOf (step ev s)) = max (nextStartTime s) (currentTime e) + duration b"
    using step_summary [OF ni, of s] by blast
  then show ?case
  proof cases
    case quiet
    then show ?thesis
      using ih by (simp add: newlyStarted_Cons [OF ni] enqueueLog_Cons [OF ni] quiet_log)
  next
    case (clamped e m)
    have "\<forall>t\<in>set (clocks evs). currentTime e \<le> t"
      using Cons.prems(2) clamped(2) by (rule clocks_Cons_sorted(2))
    then have "\<forall>r\<in>set (enqueueLog evs ?s1). currentTime e \<le> fst r"
      using enqueueLog_clocks [OF rest, of ?s1] by auto
    then have "specSchedule (max (nextStartTime s) (currentTime e)) (enqueueLog evs ?s1) =
        specSchedule (nextStartTime s) (enqueueLog evs ?s1)"
      by (rule specSchedule_clamp)
    moreover have "startedBy ev s = []"
      using clamped(1) .
    ultimately show ?thesis
      using ih clamped(3) by (simp add: newlyStarted_Cons [OF ni] enqueueLog_Cons [OF ni] quiet_log)
  next
    case (enqueued e m b)
    have "(case ev of
             Message e' m' \<Rightarrow> map (\<lambda>src. (currentTime e', buffer src)) (startedBy ev s)
           | _ \<Rightarrow> []) = [(currentTime e, b)]"
      using enqueued(2) by (simp add: enqueued(1))
    then have "enqueueLog (ev # evs) s = (currentTime e, b) # enqueueLog evs ?s1"
      by (simp only: enqueueLog_Cons [OF ni] append_Cons append_Nil)
    then show ?thesis
      using ih enqueued(2,3) by (simp add: newlyStarted_Cons [OF ni])
  qed
qed

lemma specSchedule_length:
  "length (specSchedule c rs) = length rs"
  by (induction rs arbitrary: c) auto

lemma specSchedule_first:
  "rs \<noteq> [] \<Longrightarrow> specSchedule c rs ! 0 = max c (fst (rs ! 0))"
  by (cases rs) auto

lemma specSchedule_next:
  "Suc k < length rs \<Longrightarrow>
   specSchedule c rs ! Suc k = max (specSchedule c rs ! k + duration (snd (rs ! k))) (fst (rs ! Suc k))"
proof (induction k arbitrary: c rs)
  case 0
  then obtain r1 r2 rest where "rs = r1 # r2 # rest"
    by (cases rs; cases "tl rs") auto
  then show ?case by (cases r1; cases r2) simp
next
  case (Suc k)
  then obtain r rest where rs: "rs = r # rest"
    by (cases rs) auto
  obtain deviceNow b where r: "r = (deviceNow, b)" by (cases r)
  from Suc.prems rs have "Suc k < length rest" by simp
  then show ?case
    using Suc.IH [of rest "max c deviceNow + duration b"] by (simp add: rs r)
qed

lemma run_lengths:
  assumes "\<forall>ev\<in>set evs. \<not> interrupting ev"
  shows "length (newlyStarted evs s) = length (enqueueLog evs s)"
  using run_buffers [OF assms, of s] by (metis length_map)

lemma run_first_start:
  assumes "\<forall>ev\<in>set evs. \<not> interrupting ev" and "sorted (clocks evs)" and "enqueueLog evs s \<noteq> []"
  shows "startTime (newlyStarted evs s ! 0) = max (nextStartTime s) (fst (enqueueLog evs s ! 0))"
proof -
  have "0 < length (newlyStarted evs s)"
    using assms(3) by (simp add: run_lengths [OF assms(1)])
  then have "startTime (newlyStarted evs s ! 0) = map startTime (newlyStarted evs s) ! 0"
    by simp
  also have "\<dots> = specSchedule (nextStartTime s) (enqueueLog evs s) ! 0"
    by (simp only: run_startTimes [OF assms(1,2)])
  also have "\<dots> = max (nextStartTime s) (fst (enqueueLog evs s ! 0))"
    using assms(3) by (rule specSchedule_first)
  finally show ?thesis .
qed

lemma run_next_start:
  assumes "\<forall>ev\<in>set evs. \<not> interrupting ev" and "sorted (clocks evs)"
    and "Suc k < length (enqueueLog evs s)"
  shows "startTime (newlyStarted evs s ! Suc k) =
           max (startTime (newlyStarted evs s ! k) + duration (buffer (newlyStarted evs s ! k)))
               (fst (enqueueLog evs s ! Suc k))"
proof -
  let ?new = "newlyStarted evs s" and ?log = "enqueueLog evs s"
  have len: "length ?new = length ?log"
    using assms(1) by (rule run_lengths)
  have times: "map startTime ?new = specSchedule (nextStartTime s) ?log"
    using assms(1,2) by (rule run_startTimes)
  have bufs: "map buffer ?new = map snd ?log"
    using assms(1) by (rule run_buffers)
  have k: "k < length ?new" and sk: "Suc k < length ?new"
    using assms(3) len by simp_all
  have "buffer (?new ! k) = map buffer ?new ! k"
    using k by simp
  also have "\<dots> = snd (?log ! k)"
    using k len by (simp add: bufs)
  finally have buf: "buffer (?new ! k) = snd (?log ! k)" .
  have at_k: "startTime (?new ! k) = specSchedule (nextStartTime s) ?log ! k"
    using k nth_map [of k ?new startTime] by (simp only: times)
  have "startTime (?new ! Suc k) = specSchedule (nextStartTime s) ?log ! Suc k"
    using sk nth_map [of "Suc k" ?new startTime] by (simp only: times)
  also have "\<dots> = max (specSchedule (nextStartTime s) ?log ! k + duration (snd (?log ! k))) (fst (?log ! Suc k))"
    using assms(3) by (rule specSchedule_next)
  finally show ?thesis
    by (simp only: at_k buf)
qed

section \<open>What a turn-complete message does\<close>

lemma clientLang_same:
  "targetLanguage s' = targetLanguage s \<Longrightarrow> lastClientLanguage s' = lastClientLanguage s \<Longrightarrow>
   clientLang s' = clientLang s"
  by (simp add: clientLang_def split: option.splits)

lemma clientLang_transcripts:
  "clientLang (s\<lparr>transcripts := ts\<rparr>) = clientLang s"
  by (rule clientLang_same) simp_all

lemma finalizeTurn_Normal:
  assumes "orEmpty (currentInputLanguage s) = CodeStr d"
  shows "finalizeTurn e s =
           Normal (finalizeModel e (trim (currentOutputTrans s)) (\<not> isFrench d)
                     (finalizeUser e (trim (currentInputTrans s)) s))"
  using assms by (simp add: finalizeTurn_def Let_def)

lemma finalizeUser_effect:
  "transcripts (finalizeUser e ui s) =
     transcripts s @
       (if ui = [] then []
        else [\<lparr>itemId = digits (readNow (userUpdater e)) @ ''-user'', itemSource = User, itemText = ui,
               itemLanguage = readLanguage (userUpdater e), isFinal = True,
               timestamp = readDate (userUpdater e)\<rparr>])"
  "currentInputTrans (finalizeUser e ui s) = (if ui = [] then currentInputTrans s else [])"
  by (simp_all add: finalizeUser_def)

lemma finalizeModel_effect:
  "transcripts (finalizeModel e mo fr s) =
     transcripts s @
       (if mo = [] then []
        else [\<lparr>itemId = digits (readNow (modelUpdater e)) @ ''-model'', itemSource = Model, itemText = mo,
               itemLanguage = None, isFinal = True, timestamp = readDate (modelUpdater e)\<rparr>])"
  "currentOutputTrans (finalizeModel e mo fr s) = (if mo = [] then currentOutputTrans s else [])"
  "spoken (finalizeModel e mo fr s) =
     spoken s @
       (if mo \<noteq> [] \<and> useBrowserTTS s \<and> speechSynthesis e
        then [\<lparr>uttText = mo, uttRate = 1, uttLang = (if fr then JString ''fr-FR'' else clientLang s)\<rparr>]
        else [])"
  by (simp_all add: finalizeModel_def speakText_def Let_def clientLang_transcripts)

lemma onmessage_transcript:
  "transcripts (stateOf (onmessage e m s)) = transcripts (stateOf (handleTranscription e m s))"
  "currentInputTrans (stateOf (onmessage e m s)) = currentInputTrans (stateOf (handleTranscription e m s))"
  "currentOutputTrans (stateOf (onmessage e m s)) = currentOutputTrans (stateOf (handleTranscription e m s))"
  "spoken (stateOf (onmessage e m s)) = spoken (stateOf (handleTranscription e m s))"
  "lastClientLanguage (stateOf (onmessage e m s)) = lastClientLanguage (stateOf (handleInput m s))"
  by (simp_all add: onmessage_stateOf flushAndStop_frame playAudio_frame catchLog_frame
      handleTranscription_stateOf finalizeTurn_frame handleOutput_frame split: outcome.splits)

lemma turnComplete_stateOf:
  assumes "turnComplete m" and "handleInput m s = Normal s1"
    and "orEmpty (currentInputLanguage s1) = CodeStr d"
  shows "stateOf (handleTranscription e m s) =
           finalizeModel e (trim (currentOutputTrans (handleOutput m s1))) (\<not> isFrench d)
             (finalizeUser e (trim (currentInputTrans s1)) (handleOutput m s1))"
proof -
  have "orEmpty (currentInputLanguage (handleOutput m s1)) = CodeStr d"
    using assms(3) by (simp add: handleOutput_frame)
  then show ?thesis
    using assms(1,2) by (simp add: handleTranscription_def finalizeTurn_Normal handleOutput_frame)
qed

lemma turnComplete_spoken:
  assumes "turnComplete m" and "handleInput m s = Normal s1"
    and "orEmpty (currentInputLanguage s1) = CodeStr d"
    and "useBrowserTTS s" and "speechSynthesis e"
    and "trim (currentOutputTrans (handleOutput m s1)) \<noteq> []"
  shows "spoken (stateOf (onmessage e m s)) =
           spoken s @
             [\<lparr>uttText = trim (currentOutputTrans (handleOutput m s1)), uttRate = 1,
               uttLang = (if isFrench d then clientLang s1 else JString ''fr-FR'')\<rparr>]"
proof -
  let ?pre = "handleOutput m s1"
  let ?u = "finalizeUser e (trim (currentInputTrans s1)) ?pre"
  have s1: "s1 = stateOf (handleInput m s)"
    using assms(2) by simp
  have tts: "useBrowserTTS ?u"
    using assms(4) by (simp add: finalizeUser_frame handleOutput_frame s1 handleInput_frame)
  have sp: "spoken ?u = spoken s"
    by (simp add: finalizeUser_frame handleOutput_frame s1 handleInput_frame)
  have "clientLang ?u = clientLang s1"
    by (rule clientLang_same) (simp_all add: finalizeUser_frame handleOutput_frame)
  then show ?thesis
    using assms(5,6) tts sp
    by (simp add: onmessage_transcript turnComplete_stateOf [OF assms(1-3)] finalizeModel_effect)
qed

lemma handleInput_lastClient:
  "lastClientLanguage (stateOf (handleInput m s)) =
     (case observedTag (Message e m) of
        None \<Rightarrow> lastClientLanguage s
      | Some code \<Rightarrow> if isFrench code then lastClientLanguage s else code)"
  by (simp add: handleInput_def Let_def appendUserText_frame split: option.splits langCode.splits)

lemma step_lastClient:
  "lastClientLanguage (stateOf (step ev s)) =
     (case observedTag ev of
        None \<Rightarrow> lastClientLanguage s
      | Some code \<Rightarrow> if isFrench code then lastClientLanguage s else code)"
proof (cases ev)
  case (Message e m)
  then show ?thesis
    using handleInput_lastClient [of m s e] by (simp add: onmessage_transcript)
qed (simp_all add: sourceEnded_frame onerror_frame)

section \<open>Evaluating the model on concrete inputs\<close>

lemmas handler_defs =
  onmessage_def handleTranscription_def handleInput_def handleOutput_def finalizeTurn_def
  finalizeUser_def finalizeModel_def speakText_def appendUserText_def appendModelText_def
  playAudio_def startSource_def flushAndStop_def sourceEnded_def onerror_def clientLang_def
  ifTruthy_def Let_def

lemmas string_defs =
  trim_def isWhiteSpace_def toLowerCase_def lowerChar_def startsWith_def splitFirst_def
  isFrench_def baseCode_def mapLanguageCodeToLocale_def objectGet_def localeMap_def
  LANGUAGE_LOCALES_def objectPrototypeKeys_def char_of_def bit_Suc_0_iff

lemmas example_defs =
  streamingState_def initialState_def exampleEnv_def exampleDecoder_def emptyMessage_def
  inputMessage_def outputMessage_def turnCompleteMessage_def audioMessage_def
  interruptedMessage_def duration_def

section \<open>The stored client language along a run\<close>

lemma run_lastClient:
  assumes "hostTagsOnly evs"
  shows "lastClientLanguage (stateOf (run evs s)) = lastClientLanguage s"
  using assms
proof (induction evs arbitrary: s)
  case Nil
  then show ?case by simp
next
  case (Cons ev evs)
  then have keep: "lastClientLanguage (stateOf (step ev s)) = lastClientLanguage s"
    using step_lastClient [of ev s] by (simp split: option.splits)
  show ?case
  proof (cases "step ev s")
    case (Normal s1)
    with keep Cons show ?thesis by simp
  next
    case (Throw x s1)
    with keep show ?thesis by simp
  qed
qed

lemma handleInput_detected:
  assumes "handleInput m s = Normal s1" and "observedTag (Message e m) = Some tag"
  shows "currentInputLanguage s1 = Some (CodeStr tag)"
  using assms
  by (auto simp: handleInput_def Let_def split: option.splits langCode.splits if_splits)

lemma clientLang_default:
  assumes "targetLanguage s = ''Auto''" and "lastClientLanguage s = ''en-US''"
  shows "clientLang s = JString ''en-US''"
  using assms by (simp add: clientLang_def ifTruthy_def string_defs)

lemma clientLang_unmapped:
  assumes "targetLanguage s = ''Auto''" and "mapLanguageCodeToLocale (Some (lastClientLanguage s)) = None"
  shows "clientLang s = JString ''en-US''"
  using assms by (simp add: clientLang_def ifTruthy_def)

lemma unmapped_base:
  assumes "code \<noteq> []" and "baseCode code \<notin> fst ` set localeMap"
    and "baseCode code \<notin> set objectPrototypeKeys"
  shows "mapLanguageCodeToLocale (Some code) = None"
proof -
  have "map_of localeMap (baseCode code) = None"
    using assms(2) by (simp add: map_of_eq_None_iff)
  with assms(1,3) show ?thesis
    by (simp add: mapLanguageCodeToLocale_def objectGet_def)
qed

section \<open>Callbacks that return normally\<close>

lemma onmessage_returns:
  assumes "interrupted m \<and> useBrowserTTS s \<longrightarrow> speechSynthesis e"
  shows "\<exists>s'. onmessage e m s = Normal s'"
proof -
  let ?s2 = "playAudio e m (catchLog ''Error processing transcription message:'' (handleTranscription e m s))"
  have "useBrowserTTS ?s2 = useBrowserTTS s"
    by (simp add: playAudio_frame catchLog_frame handleTranscription_frame)
  with assms show ?thesis
    by (auto simp: onmessage_def flushAndStop_def Let_def)
qed

lemma step_returns:
  assumes "cancelAvailable ev"
  shows "\<exists>s'. step ev s = Normal s' \<and> isConnected s' = isConnected s"
proof (cases ev)
  case (Message e m)
  with assms have "interrupted m \<and> useBrowserTTS s \<longrightarrow> speechSynthesis e"
    by auto
  then obtain s' where s': "onmessage e m s = Normal s'"
    using onmessage_returns by blast
  then have "isConnected s' = isConnected s"
    using onmessage_frame(1) [of e m s] by simp
  with s' Message show ?thesis by simp
qed (simp_all add: sourceEnded_frame onerror_frame)

lemma run_returns:
  assumes "list_all cancelAvailable evs"
  shows "\<exists>s'. run evs s = Normal s' \<and> isConnected s' = isConnected s"
  using assms
proof (induction evs arbitrary: s)
  case Nil
  then show ?case by simp
next
  case (Cons ev evs)
  then obtain s1 where s1: "step ev s = Normal s1" "isConnected s1 = isConnected s"
    using step_returns [of ev s] by auto
  from Cons obtain s' where "run evs s1 = Normal s'" "isConnected s' = isConnected s1"
    by fastforce
  with s1 show ?case by simp
qed

section \<open>The playback cursor\<close>

text \<open>
  C8 (cursor monotonicity). Across every sequence of session events none of which is an
  interrupting message (so: messages that enqueue or do not, buffer completions, channel
  errors, settings changes), the cursor \<open>nextStartTime\<close> never decreases. A single event
  that lowers the cursor is an interrupting message, and an interrupting message leaves
  the cursor at 0.
\<close>

theorem cursor_monotone_except_flush:
  "((\<forall>ev\<in>set evs. \<not> interrupting ev) \<longrightarrow>
      nextStartTime s \<le> nextStartTime (stateOf (run evs s))) \<and>
   (nextStartTime (stateOf (step ev s)) < nextStartTime s \<longrightarrow> interrupting ev) \<and>
   (interrupting ev \<longrightarrow> nextStartTime (stateOf (step ev s)) = 0)"
proof (intro conjI impI)
  assume "\<forall>ev\<in>set evs. \<not> interrupting ev"
  then show "nextStartTime s \<le> nextStartTime (stateOf (run evs s))"
    by (rule run_cursor)
next
  assume "nextStartTime (stateOf (step ev s)) < nextStartTime s"
  then show "interrupting ev"
    using step_cursor [of ev s] by fastforce
next
  assume "interrupting ev"
  then obtain e m where "ev = Message e m" and "interrupted m"
    by (cases ev) simp_all
  then show "nextStartTime (stateOf (step ev s)) = 0"
    by (simp add: onmessage_stateOf flushAndStop_def Let_def)
qed

theorem cursor_monotone_except_flush_witness:
  "list_all (\<lambda>ev. \<not> interrupting ev)
     [Message (exampleEnv 7) (audioMessage ''AA''), Ended 0, Message (exampleEnv 9) (audioMessage ''AAAA'')] \<and>
   nextStartTime (streamingState\<lparr>nextStartTime := 6\<rparr>)
     \<le> nextStartTime (stateOf (run [Message (exampleEnv 7) (audioMessage ''AA''), Ended 0,
                                      Message (exampleEnv 9) (audioMessage ''AAAA'')]
                                 (streamingState\<lparr>nextStartTime := 6\<rparr>))) \<and>
   nextStartTime (stateOf (step (Message (exampleEnv 9) interruptedMessage) (streamingState\<lparr>nextStartTime := 6\<rparr>)))
     < nextStartTime (streamingState\<lparr>nextStartTime := 6\<rparr>) \<and>
   interrupting (Message (exampleEnv 9) interruptedMessage) \<and>
   nextStartTime (stateOf (step (Message (exampleEnv 9) interruptedMessage) (streamingState\<lparr>nextStartTime := 6\<rparr>))) = 0"
  using cursor_monotone_except_flush
    [of "[Message (exampleEnv 7) (audioMessage ''AA''), Ended 0, Message (exampleEnv 9) (audioMessage ''AAAA'')]"
        "streamingState\<lparr>nextStartTime := 6\<rparr>" "Message (exampleEnv 9) interruptedMessage"]
  by (simp add: handler_defs example_defs)

section \<open>A turn without a detected language\<close>

text \<open>
  C9 (no detected language). When a turn is finalized with no detected input language,
  browser speech synthesis switched on and available, and a non-empty trimmed model text,
  the utterance is spoken in \<open>fr-FR\<close>.
\<close>

theorem absent_language_speaks_french:
  "turnComplete m \<and> handleInput m s = Normal s1 \<and> currentInputLanguage s1 = None \<and>
   useBrowserTTS s \<and> speechSynthesis e \<and> trim (currentOutputTrans (handleOutput m s1)) \<noteq> [] \<longrightarrow>
     spoken (stateOf (onmessage e m s)) =
       spoken s @
         [\<lparr>uttText = trim (currentOutputTrans (handleOutput m s1)), uttRate = 1,
           uttLang = JString ''fr-FR''\<rparr>]"
  using turnComplete_spoken [of m s s1 "[]" e] by (simp add: isFrench_def startsWith_def toLowerCase_def)

theorem absent_language_speaks_french_witness:
  "turnComplete turnCompleteMessage \<and>
   handleInput turnCompleteMessage
     (stateOf (run [SetUseBrowserTTS True, Message (exampleEnv 0) (outputMessage ''Bonjour'')] streamingState)) =
     Normal (stateOf (run [SetUseBrowserTTS True, Message (exampleEnv 0) (outputMessage ''Bonjour'')] streamingState)) \<and>
   currentInputLanguage
     (stateOf (run [SetUseBrowserTTS True, Message (exampleEnv 0) (outputMessage ''Bonjour'')] streamingState)) = None \<and>
   useBrowserTTS
     (stateOf (run [SetUseBrowserTTS True, Message (exampleEnv 0) (outputMessage ''Bonjour'')] streamingState)) \<and>
   speechSynthesis (exampleEnv 0) \<and>
   spoken (stateOf (onmessage (exampleEnv 0) turnCompleteMessage
     (stateOf (run [SetUseBrowserTTS True, Message (exampleEnv 0) (outputMessage ''Bonjour'')] streamingState)))) =
     [\<lparr>uttText = ''Bonjour'', uttRate = 1, uttLang = JString ''fr-FR''\<rparr>]"
  using absent_language_speaks_french
    [of turnCompleteMessage
        "stateOf (run [SetUseBrowserTTS True, Message (exampleEnv 0) (outputMessage ''Bonjour'')] streamingState)"
        "stateOf (run [SetUseBrowserTTS True, Message (exampleEnv 0) (outputMessage ''Bonjour'')] streamingState)"
        "exampleEnv 0"]
  by (simp add: handler_defs example_defs string_defs)

section \<open>The default client language\<close>

text \<open>
  C10 (default of the last client language). \<open>lastClientLanguage\<close> starts as \<open>en-US\<close> and
  keeps that value as long as no tag other than a French one has been delivered. So in
  \<open>Auto\<close> mode a turn with French input that is finalized before any such tag, with browser
  speech synthesis on and available, is spoken with the utterance language \<open>en-US\<close>. The
  same language is used in \<open>Auto\<close> mode whenever \<open>mapLanguageCodeToLocale\<close> yields nothing
  for the stored tag, which is the case for every non-empty tag whose base code is neither
  a key of the locale table nor a member name of \<open>Object.prototype\<close>.
\<close>

theorem default_client_language:
  "(hostTagsOnly evs \<longrightarrow> lastClientLanguage (stateOf (run evs initialState)) = ''en-US'') \<and>
   (hostTagsOnly evs \<and> targetLanguage (stateOf (run evs initialState)) = ''Auto'' \<and>
    turnComplete m \<and> handleInput m (stateOf (run evs initialState)) = Normal s1 \<and>
    currentInputLanguage s1 = Some (CodeStr code) \<and> isFrench code \<and>
    useBrowserTTS (stateOf (run evs initialState)) \<and> speechSynthesis e \<and>
    trim (currentOutputTrans (handleOutput m s1)) \<noteq> [] \<longrightarrow>
      spoken (stateOf (onmessage e m (stateOf (run evs initialState)))) =
        spoken (stateOf (run evs initialState)) @
          [\<lparr>uttText = trim (currentOutputTrans (handleOutput m s1)), uttRate = 1,
            uttLang = JString ''en-US''\<rparr>]) \<and>
   (targetLanguage s = ''Auto'' \<and> mapLanguageCodeToLocale (Some (lastClientLanguage s)) = None \<and>
    speechSynthesis e \<longrightarrow>
      spoken (speakText e txt False s) =
        spoken s @ [\<lparr>uttText = txt, uttRate = 1, uttLang = JString ''en-US''\<rparr>]) \<and>
   (tag \<noteq> [] \<and> baseCode tag \<notin> fst ` set localeMap \<and> baseCode tag \<notin> set objectPrototypeKeys \<longrightarrow>
      mapLanguageCodeToLocale (Some tag) = None)"
proof (intro conjI impI)
  assume "hostTagsOnly evs"
  then show "lastClientLanguage (stateOf (run evs initialState)) = ''en-US''"
    by (simp add: run_lastClient initialState_def)
next
  let ?s = "stateOf (run evs initialState)"
  assume a: "hostTagsOnly evs \<and> targetLanguage ?s = ''Auto'' \<and>
    turnComplete m \<and> handleInput m ?s = Normal s1 \<and>
    currentInputLanguage s1 = Some (CodeStr code) \<and> isFrench code \<and>
    useBrowserTTS ?s \<and> speechSynthesis e \<and>
    trim (currentOutputTrans (handleOutput m s1)) \<noteq> []"
  then have last: "lastClientLanguage ?s = ''en-US''"
    by (simp add: run_lastClient initialState_def)
  from a have s1: "stateOf (handleInput m ?s) = s1"
    by simp
  have "lastClientLanguage s1 = lastClientLanguage ?s"
  proof (cases "observedTag (Message e m)")
    case None
    then show ?thesis
      using handleInput_lastClient [of m ?s e] by (simp add: s1)
  next
    case (Some t)
    with a have "t = code"
      using handleInput_detected [of m ?s s1 e t] by simp
    with a Some show ?thesis
      using handleInput_lastClient [of m ?s e] by (simp add: s1)
  qed
  moreover have "targetLanguage s1 = targetLanguage ?s"
    unfolding s1 [symmetric] by (simp add: handleInput_frame)
  ultimately have "clientLang s1 = JString ''en-US''"
    using a last by (simp add: clientLang_default)
  with a show "spoken (stateOf (onmessage e m ?s)) =
        spoken ?s @
          [\<lparr>uttText = trim (currentOutputTrans (handleOutput m s1)), uttRate = 1,
            uttLang = JString ''en-US''\<rparr>]"
    using turnComplete_spoken [of m ?s s1 code e] by simp
next
  assume "targetLanguage s = ''Auto'' \<and> mapLanguageCodeToLocale (Some (lastClientLanguage s)) = None \<and>
    speechSynthesis e"
  then show "spoken (speakText e txt False s) =
        spoken s @ [\<lparr>uttText = txt, uttRate = 1, uttLang = JString ''en-US''\<rparr>]"
    by (simp add: speakText_def clientLang_unmapped)
next
  assume "tag \<noteq> [] \<and> baseCode tag \<notin> fst ` set localeMap \<and> baseCode tag \<notin> set objectPrototypeKeys"
  then show "mapLanguageCodeToLocale (Some tag) = None"
    by (simp add: unmapped_base)
qed

theorem default_client_language_witness:
  "hostTagsOnly hostFirst \<and>
   lastClientLanguage (stateOf (run hostFirst initialState)) = ''en-US'' \<and>
   targetLanguage (stateOf (run hostFirst initialState)) = ''Auto'' \<and>
   turnComplete turnCompleteMessage \<and>
   handleInput turnCompleteMessage (stateOf (run hostFirst initialState)) =
     Normal (stateOf (run hostFirst initialState)) \<and>
   currentInputLanguage (stateOf (run hostFirst initialState)) = Some (CodeStr ''fr-FR'') \<and>
   isFrench ''fr-FR'' \<and>
   useBrowserTTS (stateOf (run hostFirst initialState)) \<and>
   speechSynthesis (exampleEnv 0) \<and>
   spoken (stateOf (onmessage (exampleEnv 0) turnCompleteMessage (stateOf (run hostFirst initialState)))) =
     [\<lparr>uttText = ''Hello'', uttRate = 1, uttLang = JString ''en-US''\<rparr>] \<and>
   targetLanguage (initialState\<lparr>lastClientLanguage := ''sw-KE''\<rparr>) = ''Auto'' \<and>
   mapLanguageCodeToLocale (Some (lastClientLanguage (initialState\<lparr>lastClientLanguage := ''sw-KE''\<rparr>))) = None \<and>
   spoken (speakText (exampleEnv 0) ''Hello'' False (initialState\<lparr>lastClientLanguage := ''sw-KE''\<rparr>)) =
     [\<lparr>uttText = ''Hello'', uttRate = 1, uttLang = JString ''en-US''\<rparr>] \<and>
   baseCode ''sw-KE'' = ''sw'' \<and>
   baseCode ''sw-KE'' \<notin> fst ` set localeMap \<and>
   baseCode ''sw-KE'' \<notin> set objectPrototypeKeys"
  using default_client_language
    [of hostFirst turnCompleteMessage "stateOf (run hostFirst initialState)" "''fr-FR''" "exampleEnv 0"
        "initialState\<lparr>lastClientLanguage := ''sw-KE''\<rparr>" "''Hello''" "''sw-KE''"]
  by (simp add: hostFirst_def handler_defs example_defs string_defs)

section \<open>Failures while handling a message\<close>

text \<open>
  C6 (per-message fault isolation). An exception thrown by \<open>handleTranscription\<close> is
  caught inside \<open>onmessage\<close> and logged, and the audio of the same message is still
  handled; a decoder failure is caught and logged as well. Neither leaves the callback:
  \<open>onmessage\<close> returns normally with the connection flag and the error text unchanged,
  unless the message is an interruption handled with browser speech synthesis switched on
  where \<open>window.speechSynthesis\<close> does not exist. A run of events in which every
  interruption finds \<open>window.speechSynthesis\<close> handles all its events, whatever
  transcription or decoding failures occur on the way.
\<close>

theorem message_faults_isolated:
  "((interrupted m \<and> useBrowserTTS s \<longrightarrow> speechSynthesis e) \<longrightarrow>
      (\<exists>s'. onmessage e m s = Normal s' \<and> isConnected s' = isConnected s \<and> error s' = error s)) \<and>
   (handleTranscription e m s = Throw x s1 \<and> \<not> interrupted m \<longrightarrow>
      onmessage e m s =
        Normal (playAudio e m (s1\<lparr>console := console s1 @ [''Error processing transcription message:'']\<rparr>))) \<and>
   (\<not> useBrowserTTS s \<and> hasAudioContext s \<and> hasOutputAnalyser s \<and>
    inlineAudio m = Some payload \<and> payload \<noteq> [] \<and> decodeAudio e payload = Inl x \<longrightarrow>
      playAudio e m s =
        s\<lparr>nextStartTime := max (nextStartTime s) (currentTime e),
           console := console s @ [''Audio decoding error:'']\<rparr>) \<and>
   (list_all cancelAvailable evs \<longrightarrow>
      (\<exists>s'. run evs s0 = Normal s' \<and> isConnected s' = isConnected s0))"
proof (intro conjI impI)
  assume "interrupted m \<and> useBrowserTTS s \<longrightarrow> speechSynthesis e"
  then obtain s' where s': "onmessage e m s = Normal s'"
    using onmessage_returns by blast
  then have "isConnected s' = isConnected s" and "error s' = error s"
    using onmessage_frame(1,2) [of e m s] by simp_all
  with s' show "\<exists>s'. onmessage e m s = Normal s' \<and> isConnected s' = isConnected s \<and> error s' = error s"
    by simp
next
  assume "handleTranscription e m s = Throw x s1 \<and> \<not> interrupted m"
  then show "onmessage e m s =
        Normal (playAudio e m (s1\<lparr>console := console s1 @ [''Error processing transcription message:'']\<rparr>))"
    by (simp add: onmessage_def Let_def)
next
  assume "\<not> useBrowserTTS s \<and> hasAudioContext s \<and> hasOutputAnalyser s \<and>
    inlineAudio m = Some payload \<and> payload \<noteq> [] \<and> decodeAudio e payload = Inl x"
  then show "playAudio e m s =
        s\<lparr>nextStartTime := max (nextStartTime s) (currentTime e),
           console := console s @ [''Audio decoding error:'']\<rparr>"
    by (simp add: playAudio_def Let_def)
next
  assume "list_all cancelAvailable evs"
  then show "\<exists>s'. run evs s0 = Normal s' \<and> isConnected s' = isConnected s0"
    by (rule run_returns)
qed

theorem message_faults_isolated_witness:
  "handleTranscription (exampleEnv 0) (inputMessage ''Hola'' (Some (CodeOther True))) streamingState =
     Throw (TypeError ''code.toLowerCase is not a function'')
       (streamingState\<lparr>currentInputTrans := ''Hola'', streamingUserText := ''Hola'',
                        currentInputLanguage := Some (CodeOther True)\<rparr>) \<and>
   \<not> interrupted (inputMessage ''Hola'' (Some (CodeOther True))) \<and>
   onmessage (exampleEnv 0) (inputMessage ''Hola'' (Some (CodeOther True))) streamingState =
     Normal (streamingState\<lparr>currentInputTrans := ''Hola'', streamingUserText := ''Hola'',
                             currentInputLanguage := Some (CodeOther True),
                             console := [''Error processing transcription message:'']\<rparr>) \<and>
   decodeAudio (exampleEnv 0) ''A'' = Inl (AudioError ''payload length is not a multiple of the sample width'') \<and>
   playAudio (exampleEnv 0) (audioMessage ''A'') streamingState =
     streamingState\<lparr>console := [''Audio decoding error:'']\<rparr> \<and>
   list_all cancelAvailable faultyRun \<and>
   (\<exists>s'. run faultyRun streamingState = Normal s' \<and> isConnected s' = isConnected streamingState) \<and>
   isConnected (stateOf (run faultyRun streamingState)) \<and>
   currentInputTrans (stateOf (run faultyRun streamingState)) = ''Hola amigo'' \<and>
   lastClientLanguage (stateOf (run faultyRun streamingState)) = ''es-ES'' \<and>
   console (stateOf (run faultyRun streamingState)) =
     [''Error processing transcription message:'', ''Audio decoding error:'']"
  using message_faults_isolated
    [of "inputMessage ''Hola'' (Some (CodeOther True))" streamingState "exampleEnv 0"
        "TypeError ''code.toLowerCase is not a function''"
        "streamingState\<lparr>currentInputTrans := ''Hola'', streamingUserText := ''Hola'',
                         currentInputLanguage := Some (CodeOther True)\<rparr>"
        "''A''" faultyRun streamingState]
  by (simp add: faultyRun_def handler_defs example_defs string_defs)

section \<open>Channel errors\<close>

text \<open>
  C7 (classification of channel errors), as the code has it. For an \<open>Error\<close> object
  whose message contains \<open>Invalid argument\<close> the configuration text becomes the visible
  error; otherwise, if the message contains \<open>Internal error\<close>, a warning is logged and the
  visible error is unchanged; otherwise the connection-failure text becomes the visible
  error. A value that is not an \<open>Error\<close> object is logged only. The two texts differ,
  and the callback changes nothing but the visible error and the console, the connection
  flag included.
\<close>

theorem channel_error_classification:
  "error (onerror err s) =
     (case err of
        NotAnError \<Rightarrow> error s
      | ErrorObject msg \<Rightarrow>
          if includesStr msg ''Invalid argument'' then Some configurationMessage
          else if includesStr msg ''Internal error'' then error s
          else Some connectionMessage) \<and>
   console (onerror err s) =
     console s @ [''Session Error''] @
       (case err of
          NotAnError \<Rightarrow> []
        | ErrorObject msg \<Rightarrow>
            if includesStr msg ''Invalid argument'' then []
            else if includesStr msg ''Internal error''
            then [''Gemini Internal Warning (retrying usually fixes this):'']
            else []) \<and>
   (onerror err s)\<lparr>error := error s, console := console s\<rparr> = s \<and>
   configurationMessage \<noteq> connectionMessage"
  by (simp add: onerror_def Let_def configurationMessage_def connectionMessage_def
      split: channelError.splits)

theorem channel_error_classification_witness:
  "error (onerror (ErrorObject ''Request failed: Invalid argument'') streamingState) = Some configurationMessage \<and>
   error (onerror (ErrorObject ''Internal error encountered'') streamingState) = None \<and>
   console (onerror (ErrorObject ''Internal error encountered'') streamingState) =
     [''Session Error'', ''Gemini Internal Warning (retrying usually fixes this):''] \<and>
   error (onerror (ErrorObject ''socket closed'') streamingState) = Some connectionMessage \<and>
   isConnected (onerror (ErrorObject ''Request failed: Invalid argument'') streamingState)"
  using channel_error_classification [of "ErrorObject ''Request failed: Invalid argument''" streamingState]
    channel_error_classification [of "ErrorObject ''Internal error encountered''" streamingState]
    channel_error_classification [of "ErrorObject ''socket closed''" streamingState]
  by (simp add: onerror_def startsWith_def example_defs)

text \<open>
  A message that contains both phrases is handled as a configuration error and not only
  logged; a value that is not an \<open>Error\<close> object surfaces no text; and after a
  configuration error the session is still connected, the state differing only in the
  visible error and the console.
\<close>

theorem channel_error_counterexample:
  "includesStr ''Internal error: Invalid argument'' ''Internal error'' \<and>
   error (onerror (ErrorObject ''Internal error: Invalid argument'') streamingState) = Some configurationMessage \<and>
   error (onerror NotAnError streamingState) = None \<and>
   isConnected (onerror (ErrorObject ''Invalid argument'') streamingState) \<and>
   (onerror (ErrorObject ''Invalid argument'') streamingState)\<lparr>error := None, console := []\<rparr> = streamingState"
  by (simp add: onerror_def startsWith_def example_defs)

section \<open>Scheduling of enqueued buffers\<close>

text \<open>
  C1 (gap-free scheduling), as the code has it. Take any run of session events without
  an interrupting message, from any state, also one left by an earlier interruption; text
  messages, buffer completions and failed decodes may lie between two enqueues. The sources
  started during the run are appended to the started log, one for each entry of the
  enqueue log, and no two of them overlap. When the device times read by the messages do
  not decrease along the run, the first buffer starts at the larger of the cursor and the
  device time of its enqueue, and buffer \<open>k + 1\<close> starts at the larger of the end of buffer
  \<open>k\<close> (its start time plus its duration) and the device time at which buffer \<open>k + 1\<close> is
  enqueued: never before buffer \<open>k\<close> ends, and exactly at its end when the device clock has
  not passed it.
\<close>

theorem enqueue_schedule:
  "((\<forall>ev\<in>set evs. \<not> interrupting ev) \<longrightarrow>
      started (stateOf (run evs s)) = started s @ newlyStarted evs s \<and>
      map buffer (newlyStarted evs s) = map snd (enqueueLog evs s) \<and>
      noOverlap (newlyStarted evs s)) \<and>
   ((\<forall>ev\<in>set evs. \<not> interrupting ev) \<and> sorted (clocks evs) \<and> enqueueLog evs s \<noteq> [] \<longrightarrow>
      startTime (newlyStarted evs s ! 0) = max (nextStartTime s) (fst (enqueueLog evs s ! 0))) \<and>
   ((\<forall>ev\<in>set evs. \<not> interrupting ev) \<and> sorted (clocks evs) \<and> Suc k < length (enqueueLog evs s) \<longrightarrow>
      startTime (newlyStarted evs s ! Suc k) =
        max (startTime (newlyStarted evs s ! k) + duration (buffer (newlyStarted evs s ! k)))
            (fst (enqueueLog evs s ! Suc k)))"
proof (intro conjI impI)
  show "started (stateOf (run evs s)) = started s @ newlyStarted evs s"
    by (rule run_started)
next
  assume "\<forall>ev\<in>set evs. \<not> interrupting ev"
  then show "map buffer (newlyStarted evs s) = map snd (enqueueLog evs s)"
    by (rule run_buffers)
next
  assume "\<forall>ev\<in>set evs. \<not> interrupting ev"
  then show "noOverlap (newlyStarted evs s)"
    by (rule run_noOverlap)
next
  assume "(\<forall>ev\<in>set evs. \<not> interrupting ev) \<and> sorted (clocks evs) \<and> enqueueLog evs s \<noteq> []"
  then show "startTime (newlyStarted evs s ! 0) = max (nextStartTime s) (fst (enqueueLog evs s ! 0))"
    by (simp add: run_first_start)
next
  assume "(\<forall>ev\<in>set evs. \<not> interrupting ev) \<and> sorted (clocks evs) \<and> Suc k < length (enqueueLog evs s)"
  then show "startTime (newlyStarted evs s ! Suc k) =
        max (startTime (newlyStarted evs s ! k) + duration (buffer (newlyStarted evs s ! k)))
            (fst (enqueueLog evs s ! Suc k))"
    using run_next_start [where evs = evs and s = s and k = k] by blast
qed

theorem enqueue_schedule_witness:
  "list_all (\<lambda>ev. \<not> interrupting ev) enqueueRun \<and>
   sorted (clocks enqueueRun) \<and>
   enqueueLog enqueueRun afterFlush =
     [(1, \<lparr>bufLength = 24000, bufSampleRate = 24000\<rparr>),
      (7/4, \<lparr>bufLength = 48000, bufSampleRate = 24000\<rparr>),
      (9, \<lparr>bufLength = 24000, bufSampleRate = 24000\<rparr>)] \<and>
   map startTime (newlyStarted enqueueRun afterFlush) = [1, 2, 9] \<and>
   map endTime (newlyStarted enqueueRun afterFlush) = [2, 4, 10] \<and>
   noOverlap (newlyStarted enqueueRun afterFlush) \<and>
   startTime (newlyStarted enqueueRun afterFlush ! 0) =
     max (nextStartTime afterFlush) (fst (enqueueLog enqueueRun afterFlush ! 0)) \<and>
   startTime (newlyStarted enqueueRun afterFlush ! Suc 0) =
     max (startTime (newlyStarted enqueueRun afterFlush ! 0) +
          duration (buffer (newlyStarted enqueueRun afterFlush ! 0)))
         (fst (enqueueLog enqueueRun afterFlush ! Suc 0))"
  using enqueue_schedule [of enqueueRun afterFlush 0]
  by (simp add: enqueueRun_def afterFlush_def newlyStarted_def startedBy_def endTime_def noOverlap_def
      handler_defs example_defs)

text \<open>
  The start of a buffer is not always the end of the previous one: a second buffer
  enqueued at device time 5, after a one-second buffer started at 0, starts at 5.
\<close>

theorem enqueue_gap_counterexample:
  "map startTime (started (stateOf (run [Message (exampleEnv 0) (audioMessage ''AA''),
                                         Message (exampleEnv 5) (audioMessage ''AA'')] streamingState))) = [0, 5] \<and>
   map endTime (started (stateOf (run [Message (exampleEnv 0) (audioMessage ''AA''),
                                       Message (exampleEnv 5) (audioMessage ''AA'')] streamingState))) = [1, 6] \<and>
   startTime (started (stateOf (run [Message (exampleEnv 0) (audioMessage ''AA''),
                                     Message (exampleEnv 5) (audioMessage ''AA'')] streamingState)) ! 1)
     \<noteq> startTime (started (stateOf (run [Message (exampleEnv 0) (audioMessage ''AA''),
                                         Message (exampleEnv 5) (audioMessage ''AA'')] streamingState)) ! 0)
       + duration (buffer (started (stateOf (run [Message (exampleEnv 0) (audioMessage ''AA''),
                                                  Message (exampleEnv 5) (audioMessage ''AA'')] streamingState)) ! 0))"
  by (simp add: endTime_def handler_defs example_defs)

section \<open>Interruption\<close>

text \<open>
  C3 (interrupt flush). After a message with the interruption signal has been handled,
  with browser speech synthesis on or off, the active set is empty, the cursor is 0 and
  every source that was active has been stopped. In every continuation without a further
  interruption and with device times that do not decrease, the first buffer enqueued starts
  at the device time of its enqueue, provided that time is not negative: not at the cursor
  value from before the interruption.
\<close>

theorem interrupt_flush:
  "(interrupted m \<longrightarrow>
      sources (stateOf (onmessage e m s)) = [] \<and>
      nextStartTime (stateOf (onmessage e m s)) = 0 \<and>
      set (map nodeId (sources s)) \<subseteq> set (stopped (stateOf (onmessage e m s)))) \<and>
   (interrupted m \<and> (\<forall>ev\<in>set evs. \<not> interrupting ev) \<and> sorted (clocks evs) \<and>
    enqueueLog evs (stateOf (onmessage e m s)) \<noteq> [] \<and>
    0 \<le> fst (enqueueLog evs (stateOf (onmessage e m s)) ! 0) \<longrightarrow>
      startTime (newlyStarted evs (stateOf (onmessage e m s)) ! 0) =
        fst (enqueueLog evs (stateOf (onmessage e m s)) ! 0))"
proof -
  let ?c = "catchLog ''Error processing transcription message:'' (handleTranscription e m s)"
  let ?s' = "stateOf (onmessage e m s)"
  have flush: "sources ?s' = [] \<and> nextStartTime ?s' = 0 \<and> set (map nodeId (sources s)) \<subseteq> set (stopped ?s')"
    if "interrupted m"
  proof -
    from that have s': "?s' = stateOf (flushAndStop e (playAudio e m ?c))"
      by (simp add: onmessage_stateOf)
    have "set (sources s) \<subseteq> set (sources (playAudio e m ?c))"
      using playAudio_sources [of ?c e m] by (simp add: transcribed_playback)
    then have "set (map nodeId (sources s)) \<subseteq> set (stopped ?s')"
      by (auto simp: s' flushAndStop_effect)
    then show ?thesis
      by (simp add: s' flushAndStop_effect)
  qed
  have "startTime (newlyStarted evs ?s' ! 0) = fst (enqueueLog evs ?s' ! 0)"
    if "interrupted m \<and> (\<forall>ev\<in>set evs. \<not> interrupting ev) \<and> sorted (clocks evs) \<and>
        enqueueLog evs ?s' \<noteq> [] \<and> 0 \<le> fst (enqueueLog evs ?s' ! 0)"
  proof -
    from that have "nextStartTime ?s' = 0"
      using flush by blast
    moreover from that have "startTime (newlyStarted evs ?s' ! 0) =
        max (nextStartTime ?s') (fst (enqueueLog evs ?s' ! 0))"
      by (simp add: run_first_start)
    ultimately show ?thesis
      using that by simp
  qed
  with flush show ?thesis by blast
qed

theorem interrupt_flush_witness:
  "interrupted interruptedMessage \<and>
   map nodeId (sources playing) = [0] \<and>
   nextStartTime playing = 2 \<and>
   sources (stateOf (onmessage (exampleEnv 1) interruptedMessage playing)) = [] \<and>
   nextStartTime (stateOf (onmessage (exampleEnv 1) interruptedMessage playing)) = 0 \<and>
   stopped (stateOf (onmessage (exampleEnv 1) interruptedMessage playing)) = [0] \<and>
   sources (stateOf (onmessage (exampleEnv 1) interruptedMessage (playing\<lparr>useBrowserTTS := True\<rparr>))) = [] \<and>
   nextStartTime (stateOf (onmessage (exampleEnv 1) interruptedMessage (playing\<lparr>useBrowserTTS := True\<rparr>))) = 0 \<and>
   stopped (stateOf (onmessage (exampleEnv 1) interruptedMessage (playing\<lparr>useBrowserTTS := True\<rparr>))) = [0] \<and>
   cancels (stateOf (onmessage (exampleEnv 1) interruptedMessage (playing\<lparr>useBrowserTTS := True\<rparr>))) = 1 \<and>
   list_all (\<lambda>ev. \<not> interrupting ev) afterInterrupt \<and>
   sorted (clocks afterInterrupt) \<and>
   enqueueLog afterInterrupt (stateOf (onmessage (exampleEnv 1) interruptedMessage playing)) =
     [(3/2, \<lparr>bufLength = 24000, bufSampleRate = 24000\<rparr>)] \<and>
   startTime (newlyStarted afterInterrupt (stateOf (onmessage (exampleEnv 1) interruptedMessage playing)) ! 0) = 3/2"
  using interrupt_flush [of interruptedMessage "exampleEnv 1" playing afterInterrupt]
    interrupt_flush [of interruptedMessage "exampleEnv 1" "playing\<lparr>useBrowserTTS := True\<rparr>" "[]"]
  by (simp add: playing_def afterInterrupt_def newlyStarted_def startedBy_def
      handler_defs example_defs)

section \<open>Finalizing a turn\<close>

text \<open>
  C2 (turn-complete finalization), as the code has it. When a turn-complete message is
  handled without an exception (the language code of the turn is a string or absent),
  each accumulation buffer whose trimmed content is not empty yields exactly one new
  transcript item carrying the trimmed text, the user item before the model item, and that
  buffer is reset to empty; a buffer whose trimmed content is empty yields no item and
  keeps its content. With both buffers empty no item is emitted. The id, the timestamp and
  the language of an item are what its updater reads when React runs it. The partial
  inputs \<open>Bon\<close> and \<open>jour\<close> followed by turn-complete give one user item \<open>Bonjour\<close> and
  empty buffers.
\<close>

theorem turn_complete_finalization:
  "turnComplete m \<and> handleInput m s = Normal s1 \<and> orEmpty (currentInputLanguage s1) = CodeStr d \<longrightarrow>
     transcripts (stateOf (onmessage e m s)) =
       transcripts s @
         (if trim (currentInputTrans s1) = [] then []
          else [\<lparr>itemId = digits (readNow (userUpdater e)) @ ''-user'', itemSource = User,
                 itemText = trim (currentInputTrans s1),
                 itemLanguage = readLanguage (userUpdater e), isFinal = True,
                 timestamp = readDate (userUpdater e)\<rparr>]) @
         (if trim (currentOutputTrans (handleOutput m s1)) = [] then []
          else [\<lparr>itemId = digits (readNow (modelUpdater e)) @ ''-model'', itemSource = Model,
                 itemText = trim (currentOutputTrans (handleOutput m s1)),
                 itemLanguage = None, isFinal = True, timestamp = readDate (modelUpdater e)\<rparr>]) \<and>
     currentInputTrans (stateOf (onmessage e m s)) =
       (if trim (currentInputTrans s1) = [] then currentInputTrans s1 else []) \<and>
     currentOutputTrans (stateOf (onmessage e m s)) =
       (if trim (currentOutputTrans (handleOutput m s1)) = [] then currentOutputTrans (handleOutput m s1)
        else [])"
proof (intro impI)
  assume a: "turnComplete m \<and> handleInput m s = Normal s1 \<and> orEmpty (currentInputLanguage s1) = CodeStr d"
  then have fin: "stateOf (handleTranscription e m s) =
      finalizeModel e (trim (currentOutputTrans (handleOutput m s1))) (\<not> isFrench d)
        (finalizeUser e (trim (currentInputTrans s1)) (handleOutput m s1))"
    by (simp add: turnComplete_stateOf)
  from a have s1: "stateOf (handleInput m s) = s1"
    by simp
  have before: "transcripts s1 = transcripts s"
    unfolding s1 [symmetric] by (simp add: handleInput_frame)
  show "transcripts (stateOf (onmessage e m s)) =
       transcripts s @
         (if trim (currentInputTrans s1) = [] then []
          else [\<lparr>itemId = digits (readNow (userUpdater e)) @ ''-user'', itemSource = User,
                 itemText = trim (currentInputTrans s1),
                 itemLanguage = readLanguage (userUpdater e), isFinal = True,
                 timestamp = readDate (userUpdater e)\<rparr>]) @
         (if trim (currentOutputTrans (handleOutput m s1)) = [] then []
          else [\<lparr>itemId = digits (readNow (modelUpdater e)) @ ''-model'', itemSource = Model,
                 itemText = trim (currentOutputTrans (handleOutput m s1)),
                 itemLanguage = None, isFinal = True, timestamp = readDate (modelUpdater e)\<rparr>]) \<and>
     currentInputTrans (stateOf (onmessage e m s)) =
       (if trim (currentInputTrans s1) = [] then currentInputTrans s1 else []) \<and>
     currentOutputTrans (stateOf (onmessage e m s)) =
       (if trim (currentOutputTrans (handleOutput m s1)) = [] then currentOutputTrans (handleOutput m s1)
        else [])"
    by (simp add: onmessage_transcript fin finalizeModel_effect finalizeModel_frame
        finalizeUser_effect finalizeUser_frame handleOutput_frame before)
qed

theorem turn_complete_finalization_witness:
  "turnComplete turnCompleteMessage \<and>
   handleInput turnCompleteMessage (stateOf (run bonjourTurn streamingState)) =
     Normal (stateOf (run bonjourTurn streamingState)) \<and>
   currentInputLanguage (stateOf (run bonjourTurn streamingState)) = Some (CodeStr ''fr-FR'') \<and>
   orEmpty (currentInputLanguage (stateOf (run bonjourTurn streamingState))) = CodeStr ''fr-FR'' \<and>
   currentInputTrans (stateOf (run bonjourTurn streamingState)) = ''Bonjour'' \<and>
   transcripts (stateOf (onmessage (exampleEnv 0) turnCompleteMessage (stateOf (run bonjourTurn streamingState)))) =
     [\<lparr>itemId = ''1000-user'', itemSource = User, itemText = ''Bonjour'', itemLanguage = None,
       isFinal = True, timestamp = 1000\<rparr>,
      \<lparr>itemId = ''1001-model'', itemSource = Model, itemText = ''Hello'', itemLanguage = None,
       isFinal = True, timestamp = 1001\<rparr>] \<and>
   currentInputTrans (stateOf (onmessage (exampleEnv 0) turnCompleteMessage
     (stateOf (run bonjourTurn streamingState)))) = [] \<and>
   currentOutputTrans (stateOf (onmessage (exampleEnv 0) turnCompleteMessage
     (stateOf (run bonjourTurn streamingState)))) = [] \<and>
   transcripts (stateOf (onmessage (exampleEnv 0) turnCompleteMessage streamingState)) = []"
  using turn_complete_finalization
    [of turnCompleteMessage "stateOf (run bonjourTurn streamingState)"
        "stateOf (run bonjourTurn streamingState)" "''fr-FR''" "exampleEnv 0"]
    turn_complete_finalization [of turnCompleteMessage streamingState streamingState "[]" "exampleEnv 0"]
  by (simp add: bonjourTurn_def handler_defs example_defs string_defs digits.simps)

text \<open>
  A buffer that holds only white space is not reset by turn-complete: no item is emitted
  and the buffer still holds the white space afterwards.
\<close>

theorem whitespace_buffer_counterexample:
  "trim (currentInputTrans (stateOf (run [Message (exampleEnv 0) (inputMessage '' '' None)] streamingState))) = [] \<and>
   transcripts (stateOf (run [Message (exampleEnv 0) (inputMessage '' '' None),
                              Message (exampleEnv 0) turnCompleteMessage] streamingState)) = [] \<and>
   currentInputTrans (stateOf (run [Message (exampleEnv 0) (inputMessage '' '' None),
                                    Message (exampleEnv 0) turnCompleteMessage] streamingState)) = '' '' \<and>
   currentInputTrans (stateOf (run [Message (exampleEnv 0) (inputMessage '' '' None),
                                    Message (exampleEnv 0) turnCompleteMessage] streamingState)) \<noteq> []"
  by (simp add: handler_defs example_defs string_defs)

section \<open>The last client language\<close>

text \<open>
  C4 (update rule of the last client language). For the tags \<open>es-ES\<close>, \<open>fr-FR\<close>,
  \<open>es-MX\<close> the final value is \<open>es-MX\<close>. The tag \<open>frr-DE\<close> has the base code \<open>frr\<close>, which is
  not \<open>fr\<close>, and \<open>mapLanguageCodeToLocale\<close> does not map it to French; but the test in
  \<open>handleTranscription\<close> is on the prefix \<open>fr\<close> of the lower-cased tag, so this tag is not
  stored and the value stays \<open>es-ES\<close>.
\<close>

theorem frisian_tag_not_remembered:
  "baseCode ''frr-DE'' = ''frr'' \<and>
   baseCode ''frr-DE'' \<noteq> ''fr'' \<and>
   mapLanguageCodeToLocale (Some ''frr-DE'') = None \<and>
   mapLanguageCodeToLocale (Some ''fr-FR'') = Some (JString ''fr-FR'') \<and>
   isFrench ''frr-DE'' \<and>
   observedTag (Message (exampleEnv 0) (inputMessage [] (Some (CodeStr ''frr-DE'')))) = Some ''frr-DE'' \<and>
   lastClientLanguage
     (stateOf (run [Message (exampleEnv 0) (inputMessage [] (Some (CodeStr ''es-ES''))),
                    Message (exampleEnv 0) (inputMessage [] (Some (CodeStr ''frr-DE'')))] streamingState)) = ''es-ES'' \<and>
   lastClientLanguage
     (stateOf (run [Message (exampleEnv 0) (inputMessage [] (Some (CodeStr ''es-ES''))),
                    Message (exampleEnv 0) (inputMessage [] (Some (CodeStr ''fr-FR''))),
                    Message (exampleEnv 0) (inputMessage [] (Some (CodeStr ''es-MX'')))] streamingState)) = ''es-MX''"
  by (simp add: handler_defs example_defs string_defs)

section \<open>Direction of the fallback speech\<close>

text \<open>
  C5 (fallback-speech directionality). With browser speech synthesis on, the model text
  of a turn with Spanish input is spoken in \<open>fr-FR\<close>, and that of a turn with French input
  in the client language: the mapped last client tag \<open>es-ES\<close> in \<open>Auto\<close> mode, the locale
  \<open>de-DE\<close> when the target German is configured. A turn whose detected tag is \<open>frr-DE\<close>,
  which is not French, passes the prefix test for French: its model text is spoken in the
  client language \<open>en-US\<close> and not in \<open>fr-FR\<close>.
\<close>

theorem frisian_turn_spoken_in_client_language:
  "currentInputLanguage
     (stateOf (run [SetUseBrowserTTS True,
                    Message (exampleEnv 0) (inputMessage ''Moin'' (Some (CodeStr ''frr-DE''))),
                    Message (exampleEnv 0) (outputMessage ''Bonjour'')] streamingState)) =
     Some (CodeStr ''frr-DE'') \<and>
   baseCode ''frr-DE'' \<noteq> ''fr'' \<and>
   spoken (stateOf (run frisianTurn streamingState)) =
     [\<lparr>uttText = ''Bonjour'', uttRate = 1, uttLang = JString ''en-US''\<rparr>] \<and>
   spoken (stateOf (run (clientThenHost @ [Message (exampleEnv 0) turnCompleteMessage]) streamingState)) =
     [\<lparr>uttText = ''Bonjour'', uttRate = 1, uttLang = JString ''fr-FR''\<rparr>,
      \<lparr>uttText = ''Gracias'', uttRate = 1, uttLang = JString ''es-ES''\<rparr>] \<and>
   spoken (stateOf (run (SetTargetLanguage ''German'' # hostFirst @ [Message (exampleEnv 0) turnCompleteMessage])
                     streamingState)) =
     [\<lparr>uttText = ''Hello'', uttRate = 1, uttLang = JString ''de-DE''\<rparr>]"
  by (simp add: frisianTurn_def clientThenHost_def hostFirst_def handler_defs example_defs string_defs)

end
